theory Spec2Isabelle
  imports Complex_Main "HOL-Library.Word"
begin

section \<open>Tensor elements\<close>

text \<open>
  The notebook computes on \<open>float32\<close> tensors. An element is modelled by its value: a
  real number, one of the two infinities, or not-a-number. The range of \<open>float32\<close> is
  modelled, its precision is not: the result of an operation on numbers is the exact
  result when that lies in the range, an infinity when its magnitude reaches
  \<open>2^128 - 2^103\<close> (from where rounding to nearest gives infinity) and zero when its
  magnitude is at most \<open>2^-150\<close> (half of the smallest positive \<open>float32\<close>). Rounding
  within the range and the sign of zero are left out. The special values follow IEEE 754,
  which is what PyTorch computes: \<open>0 / 0\<close> and \<open>0 * inf\<close> are not-a-number and raise
  nothing, and not-a-number propagates through every operation, also through the
  elementwise \<open>torch.max\<close>, \<open>torch.min\<close> and \<open>clamp\<close> (as documented for
  \<open>torch.maximum\<close>, \<open>torch.minimum\<close> and \<open>torch.clamp\<close>).
\<close>

datatype fl = Fin real | PInf | NInf | NaN

definition float32 :: "real \<Rightarrow> fl" where
  "float32 x =
     (if 2 ^ 128 - 2 ^ 103 \<le> x then PInf
      else if x \<le> - (2 ^ 128 - 2 ^ 103) then NInf
      else if \<bar>x\<bar> \<le> 1 / 2 ^ 150 then Fin 0
      else Fin x)"

text \<open>
  A Python \<open>float\<close> that meets a \<open>float32\<close> tensor in an operation is converted to
  \<open>float32\<close> first.
\<close>

definition to_float32 :: "fl \<Rightarrow> fl" where
  "to_float32 x = (case x of Fin a \<Rightarrow> float32 a | PInf \<Rightarrow> PInf | NInf \<Rightarrow> NInf | NaN \<Rightarrow> NaN)"

fun fl_neg :: "fl \<Rightarrow> fl" where
  "fl_neg (Fin a) = Fin (- a)"
| "fl_neg PInf = NInf"
| "fl_neg NInf = PInf"
| "fl_neg NaN = NaN"

fun fl_add :: "fl \<Rightarrow> fl \<Rightarrow> fl" where
  "fl_add (Fin a) (Fin b) = float32 (a + b)"
| "fl_add NaN y = NaN"
| "fl_add x NaN = NaN"
| "fl_add PInf NInf = NaN"
| "fl_add NInf PInf = NaN"
| "fl_add PInf y = PInf"
| "fl_add x PInf = PInf"
| "fl_add NInf y = NInf"
| "fl_add x NInf = NInf"

definition fl_sub :: "fl \<Rightarrow> fl \<Rightarrow> fl" where
  "fl_sub x y = fl_add x (fl_neg y)"

fun fl_mul :: "fl \<Rightarrow> fl \<Rightarrow> fl" where
  "fl_mul (Fin a) (Fin b) = float32 (a * b)"
| "fl_mul NaN y = NaN"
| "fl_mul x NaN = NaN"
| "fl_mul (Fin a) y = (if a = 0 then NaN else if (0 < a) = (y = PInf) then PInf else NInf)"
| "fl_mul x (Fin b) = (if b = 0 then NaN else if (0 < b) = (x = PInf) then PInf else NInf)"
| "fl_mul x y = (if x = y then PInf else NInf)"

fun fl_div :: "fl \<Rightarrow> fl \<Rightarrow> fl" where
  "fl_div (Fin a) (Fin b) =
     (if b = 0 then (if a = 0 then NaN else if 0 < a then PInf else NInf) else float32 (a / b))"
| "fl_div NaN y = NaN"
| "fl_div x NaN = NaN"
| "fl_div (Fin a) y = Fin 0"
| "fl_div x (Fin b) = (if (0 \<le> b) = (x = PInf) then PInf else NInf)"
| "fl_div x y = NaN"

fun fl_abs :: "fl \<Rightarrow> fl" where
  "fl_abs (Fin a) = Fin \<bar>a\<bar>"
| "fl_abs PInf = PInf"
| "fl_abs NInf = PInf"
| "fl_abs NaN = NaN"

text \<open>The comparison \<open><\<close> of IEEE 754: false as soon as one side is not-a-number.\<close>

fun fl_less :: "fl \<Rightarrow> fl \<Rightarrow> bool" where
  "fl_less (Fin a) (Fin b) = (a < b)"
| "fl_less NaN y = False"
| "fl_less x NaN = False"
| "fl_less NInf y = (y \<noteq> NInf)"
| "fl_less x PInf = (x \<noteq> PInf)"
| "fl_less x y = False"

definition fl_max :: "fl \<Rightarrow> fl \<Rightarrow> fl" where
  "fl_max x y = (if x = NaN \<or> y = NaN then NaN else if fl_less x y then y else x)"

definition fl_min :: "fl \<Rightarrow> fl \<Rightarrow> fl" where
  "fl_min x y = (if x = NaN \<or> y = NaN then NaN else if fl_less y x then y else x)"

fun is_fin :: "fl \<Rightarrow> bool" where
  "is_fin (Fin a) = True"
| "is_fin x = False"

fun val :: "fl \<Rightarrow> real" where
  "val (Fin a) = a"
| "val x = 0"

section \<open>Tensors\<close>

text \<open>
  A tensor of three dimensions is a list of channels, a channel a list of rows, a row a
  list of elements: \<open>t ! c ! i ! j\<close> is \<open>t[c, i, j]\<close>.
\<close>

type_synonym tensor = "fl list list list"

definition tmap :: "(fl \<Rightarrow> fl) \<Rightarrow> tensor \<Rightarrow> tensor" where
  "tmap f t = map (map (map f)) t"

text \<open>An elementwise operation on two tensors of one shape.\<close>

definition tmap2 :: "(fl \<Rightarrow> fl \<Rightarrow> fl) \<Rightarrow> tensor \<Rightarrow> tensor \<Rightarrow> tensor" where
  "tmap2 f a b = map2 (map2 (map2 f)) a b"

text \<open>
  An elementwise operation of a tensor with a per-channel constant: the broadcast of a
  tensor of shape \<open>[C, 1, 1]\<close> (written \<open>v[:, None, None]\<close>) against one of shape
  \<open>[C, H, W]\<close>.
\<close>

definition tchan :: "(fl \<Rightarrow> fl \<Rightarrow> fl) \<Rightarrow> tensor \<Rightarrow> fl list \<Rightarrow> tensor" where
  "tchan f t cs = map2 (\<lambda>ch c. map (map (\<lambda>v. f v c)) ch) t cs"

definition flat :: "tensor \<Rightarrow> fl list" where
  "flat t = concat (concat t)"

definition same_shape :: "tensor \<Rightarrow> tensor \<Rightarrow> bool" where
  "same_shape a b = (map (map length) a = map (map length) b)"

definition zeros_like :: "tensor \<Rightarrow> tensor" where
  "zeros_like t = tmap (\<lambda>v. Fin 0) t"

definition fl_sum :: "fl list \<Rightarrow> fl" where
  "fl_sum xs = foldr fl_add xs (Fin 0)"

text \<open>\<open>t.abs().mean()\<close>: the mean over all elements; of an empty tensor, not-a-number.\<close>

definition abs_mean :: "tensor \<Rightarrow> fl" where
  "abs_mean t = fl_div (fl_sum (map fl_abs (flat t))) (Fin (real (length (flat t))))"

section \<open>The image transforms\<close>

datatype error = ZeroDivisionError | IndexError | RuntimeError

text \<open>A decoded RGB picture: rows of pixels, a pixel three bytes.\<close>

type_synonym pixel = "8 word \<times> 8 word \<times> 8 word"
type_synonym image = "pixel list list"

definition mean :: "fl list" where
  "mean = [Fin (485 / 1000), Fin (456 / 1000), Fin (406 / 1000)]"

definition std :: "fl list" where
  "std = [Fin (229 / 1000), Fin (224 / 1000), Fin (225 / 1000)]"

text \<open>
  \<open>transforms.Normalize(ms, ss)\<close> maps channel \<open>c\<close> of a tensor to
  \<open>(t[c] - ms[c]) / ss[c]\<close>.
\<close>

definition Normalize :: "fl list \<Rightarrow> fl list \<Rightarrow> tensor \<Rightarrow> tensor" where
  "Normalize ms ss t =
     map (\<lambda>(ch, m, s). map (map (\<lambda>v. fl_div (fl_sub v m) s)) ch) (zip t (zip ms ss))"

definition normalize_img :: "tensor \<Rightarrow> tensor" where
  "normalize_img = Normalize mean std"

definition unnormalize :: "tensor \<Rightarrow> tensor" where
  "unnormalize =
     Normalize (map2 (\<lambda>m s. fl_div (fl_neg m) s) mean std) (map (\<lambda>s. fl_div (Fin 1) s) std)"

text \<open>\<open>transforms.ToTensor\<close>: bytes \<open>H x W x C\<close> to numbers in \<open>[0, 1]\<close>, \<open>C x H x W\<close>.\<close>

definition ToTensor :: "image \<Rightarrow> tensor" where
  "ToTensor pic =
     [map (map (\<lambda>(r, g, b). Fin (real (unat r) / 255))) pic,
      map (map (\<lambda>(r, g, b). Fin (real (unat g) / 255))) pic,
      map (map (\<lambda>(r, g, b). Fin (real (unat b) / 255))) pic]"

text \<open>
  \<open>transforms.Resize(sz)\<close> with one number: the picture is rescaled so that its smaller
  edge is \<open>sz\<close>, the aspect ratio kept; a picture whose smaller edge is \<open>sz\<close> already is
  returned as it is. The resampling itself (the interpolation of the imaging library) is
  the parameter \<open>rs\<close>, called like \<open>img.resize((ow, oh))\<close>.
\<close>

type_synonym resampler = "nat \<Rightarrow> nat \<Rightarrow> image \<Rightarrow> image"

definition width :: "image \<Rightarrow> nat" where
  "width img = (case img of [] \<Rightarrow> 0 | row # rest \<Rightarrow> length row)"

definition Resize :: "resampler \<Rightarrow> nat \<Rightarrow> image \<Rightarrow> error + image" where
  "Resize rs sz img =
     (let w = width img; h = length img in
      if (w \<le> h \<and> w = sz) \<or> (h \<le> w \<and> h = sz) then Inr img
      else if w < h then
        (if w = 0 then Inl ZeroDivisionError else Inr (rs sz (sz * h div w) img))
      else
        (if h = 0 then Inl ZeroDivisionError else Inr (rs (sz * w div h) sz img)))"

definition img_transform :: "resampler \<Rightarrow> image \<Rightarrow> error + tensor" where
  "img_transform rs img =
     (case Resize rs 256 img of
        Inl e \<Rightarrow> Inl e
      | Inr pic \<Rightarrow> Inr (normalize_img (ToTensor pic)))"

section \<open>The forward model and the objectives\<close>

text \<open>
  The network is a collaborator. \<open>forward m x\<close> is \<open>model(x)\<close>, the list of the stages'
  activations. \<open>backward m x k seed\<close> is what \<open>output[k].backward(seed)\<close> leaves in
  \<open>x.grad\<close>: the gradient, with respect to \<open>x\<close>, of stage \<open>k\<close> weighted by \<open>seed\<close>.
  Both may raise.
\<close>

record model =
  forward :: "tensor \<Rightarrow> error + tensor list"
  backward :: "tensor \<Rightarrow> nat \<Rightarrow> tensor \<Rightarrow> error + tensor"

text \<open>
  A gradient function receives the activations and calls \<open>backward\<close> on one of them; it
  is modelled by the call it makes: the stage and the seed.
\<close>

type_synonym grad_fn = "tensor list \<Rightarrow> error + nat \<times> tensor"

definition layer :: nat where
  "layer = 2"

definition default_grad_fn :: grad_fn where
  "default_grad_fn output =
     (if layer < length output then Inr (layer, output ! layer) else Inl IndexError)"

section \<open>Random shifts\<close>

text \<open>
  The process-wide random source is a sequence of draws; \<open>random.randint(a, b)\<close> takes
  the next one and returns a number of \<open>a..b\<close>, both ends included.
\<close>

type_synonym rng = "nat \<Rightarrow> nat"

definition randint :: "nat \<Rightarrow> nat \<Rightarrow> rng \<Rightarrow> nat \<times> rng" where
  "randint a b g = (a + g 0 mod (b - a + 1), \<lambda>k. g (Suc k))"

definition shift :: nat where
  "shift = 20"

text \<open>The Python slice \<open>xs[a:-b]\<close> for \<open>0 \<le> a\<close> and \<open>1 \<le> b\<close>.\<close>

definition pyslice :: "nat \<Rightarrow> nat \<Rightarrow> 'a list \<Rightarrow> 'a list" where
  "pyslice a b xs = drop a (take (length xs - b) xs)"

text \<open>The four offsets, drawn in the order in which Python evaluates the subscript.\<close>

definition draw_shift :: "rng \<Rightarrow> (nat \<times> nat \<times> nat \<times> nat) \<times> rng" where
  "draw_shift g =
     (let (y0, g1) = randint 0 shift g;
          (y1, g2) = randint 1 shift g1;
          (x0, g3) = randint 0 shift g2;
          (x1, g4) = randint 1 shift g3
      in ((y0, y1, x0, x1), g4))"

definition slice_hw :: "nat \<times> nat \<times> nat \<times> nat \<Rightarrow> tensor \<Rightarrow> tensor" where
  "slice_hw off data =
     (case off of (y0, y1, x0, x1) \<Rightarrow>
        map (\<lambda>ch. map (pyslice x0 x1) (pyslice y0 y1 ch)) data)"

definition random_shift :: "tensor \<Rightarrow> rng \<Rightarrow> tensor \<times> (nat \<times> nat \<times> nat \<times> nat) \<times> rng" where
  "random_shift data g = (let (off, g') = draw_shift g in (slice_hw off data, off, g'))"

text \<open>
  The slice is a view of \<open>data\<close>: a gradient \<open>gx\<close> that reaches the view flows back to
  \<open>data\<close> as a tensor of zeros of the shape of \<open>data\<close> in which the sliced region holds
  \<open>gx\<close>.
\<close>

definition assign_slice :: "nat \<Rightarrow> nat \<Rightarrow> 'a list \<Rightarrow> 'a list \<Rightarrow> 'a list" where
  "assign_slice a b zs xs =
     (if a < length zs - b then take a zs @ xs @ drop (length zs - b) zs else zs)"

definition slice_backward :: "nat \<times> nat \<times> nat \<times> nat \<Rightarrow> tensor \<Rightarrow> tensor \<Rightarrow> tensor" where
  "slice_backward off data gx =
     (case off of (y0, y1, x0, x1) \<Rightarrow>
        map2 (\<lambda>zch gch.
                assign_slice y0 y1 zch
                  (map2 (\<lambda>zrow grow. assign_slice x0 x1 zrow grow)
                     (pyslice y0 y1 zch) gch))
          (zeros_like data) gx)"

section \<open>The dream loop\<close>

definition clamp_min :: "fl list" where
  "clamp_min = map2 (\<lambda>m s. fl_div (fl_neg m) s) mean std"

definition clamp_max :: "fl list" where
  "clamp_max = map2 (\<lambda>m s. fl_div (fl_sub (Fin 1) m) s) mean std"

text \<open>
  The first half of an iteration: the forward pass on the image (or on a random slice of
  it), the objective, the backward pass. The result is \<open>data.grad\<close>.
\<close>

definition input_grad :: "bool \<Rightarrow> model \<Rightarrow> grad_fn \<Rightarrow> tensor \<Rightarrow> rng \<Rightarrow> error + tensor \<times> rng" where
  "input_grad do_random_shifts m gf data g =
     (let (x, off, g') =
            (if do_random_shifts
             then (case random_shift data g of (x, off, g') \<Rightarrow> (x, Some off, g'))
             else (data, None, g))
      in case forward m x of
           Inl e \<Rightarrow> Inl e
         | Inr output \<Rightarrow>
             (case gf output of
                Inl e \<Rightarrow> Inl e
              | Inr (k, seed) \<Rightarrow>
                  (case backward m x k seed of
                     Inl e \<Rightarrow> Inl e
                   | Inr gx \<Rightarrow>
                       Inr (case off of None \<Rightarrow> gx | Some sl \<Rightarrow> slice_backward sl data gx, g'))))"

text \<open>
  The second half: the normalised step, then the clipping. The learning rate is a Python
  \<open>float\<close> (it may be an infinity or not-a-number); the product
  \<open>data.grad * learning_rate\<close> is computed in \<open>float32\<close>.
\<close>

definition sgd_update :: "fl \<Rightarrow> tensor \<Rightarrow> tensor \<Rightarrow> tensor" where
  "sgd_update learning_rate data grad =
     (let grad_mean = abs_mean grad;
          data1 = tmap2 (\<lambda>d g. fl_add d (fl_div (fl_mul g (to_float32 learning_rate)) grad_mean))
                    data grad;
          data2 = tchan fl_max data1 clamp_min;
          data3 = tchan fl_min data2 clamp_max
      in data3)"

definition dream_step ::
  "bool \<Rightarrow> model \<Rightarrow> grad_fn \<Rightarrow> fl \<Rightarrow> tensor \<times> rng \<Rightarrow> error + tensor \<times> rng" where
  "dream_step do_random_shifts m gf learning_rate s =
     (case s of (data, g) \<Rightarrow>
        (case input_grad do_random_shifts m gf data g of
           Inl e \<Rightarrow> Inl e
         | Inr (grad, g') \<Rightarrow> Inr (sgd_update learning_rate data grad, g')))"

primrec dream_loop ::
  "nat \<Rightarrow> bool \<Rightarrow> model \<Rightarrow> grad_fn \<Rightarrow> fl \<Rightarrow> tensor \<times> rng \<Rightarrow> error + tensor \<times> rng" where
  "dream_loop 0 do_random_shifts m gf learning_rate s = Inr s"
| "dream_loop (Suc n) do_random_shifts m gf learning_rate s =
     (case dream_step do_random_shifts m gf learning_rate s of
        Inl e \<Rightarrow> Inl e
      | Inr s' \<Rightarrow> dream_loop n do_random_shifts m gf learning_rate s')"

text \<open>\<open>t.permute(1, 2, 0)\<close>: from \<open>C x H x W\<close> to \<open>H x W x C\<close>.\<close>

definition permute :: "tensor \<Rightarrow> tensor" where
  "permute t =
     (case t of
        [] \<Rightarrow> []
      | ch # rest \<Rightarrow>
          map (\<lambda>i. map (\<lambda>j. map (\<lambda>c. c ! i ! j) t) [0..<length (ch ! i)]) [0..<length ch])"

definition clamp01 :: "tensor \<Rightarrow> tensor" where
  "clamp01 t = tmap (\<lambda>v. fl_min (fl_max v (Fin 0)) (Fin 1)) t"

text \<open>
  \<open>dream(img, n_iter, grad_fn, learning_rate)\<close>. \<open>range(n_iter)\<close> is empty for a
  negative \<open>n_iter\<close>; \<open>learning_rate\<close> is a Python \<open>float\<close>. The global
  \<open>do_random_shifts\<close>, the resampler, the model and the random source are parameters.
\<close>

definition dream ::
  "bool \<Rightarrow> resampler \<Rightarrow> model \<Rightarrow> rng \<Rightarrow> image \<Rightarrow> int \<Rightarrow> grad_fn \<Rightarrow> fl \<Rightarrow> error + tensor" where
  "dream do_random_shifts rs m g img n_iter gf learning_rate =
     (case img_transform rs img of
        Inl e \<Rightarrow> Inl e
      | Inr data \<Rightarrow>
          (case dream_loop (nat n_iter) do_random_shifts m gf learning_rate (data, g) of
             Inl e \<Rightarrow> Inl e
           | Inr (data', g') \<Rightarrow> Inr (permute (clamp01 (unnormalize data')))))"

section \<open>The guided objective\<close>

text \<open>
  \<open>t.view(t.shape[0], -1)\<close>: every channel flattened to one row. A tensor without
  channels cannot be viewed so (the size \<open>-1\<close> stands for is ambiguous).
\<close>

definition view2d :: "tensor \<Rightarrow> fl list list" where
  "view2d t = map concat t"

text \<open>\<open>m.t()\<close>: the transposed matrix.\<close>

definition transposed :: "'a list list \<Rightarrow> 'a list list" where
  "transposed m =
     (case m of [] \<Rightarrow> [] | row # rest \<Rightarrow> map (\<lambda>i. map (\<lambda>r. r ! i) m) [0..<length row])"

text \<open>
  \<open>torch.matmul\<close> is a collaborator: the matrix product of the library, computed in
  \<open>float32\<close>, whose rounding and order of summation the notebook does not fix. It is
  called on matrices whose inner dimensions agree.
\<close>

type_synonym matmul = "fl list list \<Rightarrow> fl list list \<Rightarrow> fl list list"

text \<open>
  \<open>argmax\<close> of a row: the index of the first maximal entry, not-a-number counting as
  the greatest value.
\<close>

definition better :: "fl \<Rightarrow> fl \<Rightarrow> bool" where
  "better x best = (if best = NaN then False else if x = NaN then True else fl_less best x)"

primrec argmax_from :: "nat \<Rightarrow> fl \<Rightarrow> nat \<Rightarrow> fl list \<Rightarrow> nat" where
  "argmax_from bi best k [] = bi"
| "argmax_from bi best k (x # xs) =
     (if better x best then argmax_from k x (Suc k) xs else argmax_from bi best (Suc k) xs)"

definition argmax :: "fl list \<Rightarrow> nat" where
  "argmax xs = (case xs of [] \<Rightarrow> 0 | x # rest \<Rightarrow> argmax_from 0 x 1 rest)"

text \<open>\<open>r.view(shape)\<close> on one flattened channel: \<open>h\<close> rows of \<open>w\<close> elements.\<close>

definition chunks :: "nat \<Rightarrow> nat \<Rightarrow> 'a list \<Rightarrow> 'a list list" where
  "chunks h w xs = map (\<lambda>i. take w (drop (i * w) xs)) [0..<h]"

text \<open>
  \<open>my_grad_fn\<close>, with the activations \<open>guide\<close> of the reference picture that the notebook
  keeps in a global, and the matrix product. Tensors are rectangular: the height and the
  width of \<open>o\<close> are read off its first channel and first row. \<open>view\<close> and \<open>matmul\<close>
  raise a \<open>RuntimeError\<close> on sizes that do not fit; \<open>argmax\<close> over a dimension of size
  0 and an index out of range raise an \<open>IndexError\<close>.
\<close>

definition my_grad_fn :: "matmul \<Rightarrow> tensor list \<Rightarrow> grad_fn" where
  "my_grad_fn mm guide output =
     (if \<not> 2 < length output \<or> \<not> 2 < length guide then Inl IndexError
      else
        let o3 = output ! 2; g3 = guide ! 2 in
        if o3 = [] \<or> g3 = [] then Inl RuntimeError
        else
          let h = length (hd o3);
              w = (case hd o3 of [] \<Rightarrow> 0 | row # rest \<Rightarrow> length row);
              o2 = view2d o3;
              g2 = view2d g3
          in
          if length o2 \<noteq> length g2 then Inl RuntimeError
          else
            let r = mm (transposed o2) g2 in
            if length (hd g2) = 0 then Inl IndexError
            else
              let idx = map argmax r in
              if list_ex (\<lambda>j. length (hd g2) \<le> j) idx then Inl IndexError
              else
                let r2 = map (\<lambda>gc. map (\<lambda>j. gc ! j) idx) g2 in
                if length idx \<noteq> h * w then Inl RuntimeError
                else Inr (2, map (chunks h w) r2))"

section \<open>Example collaborators\<close>

text \<open>
  A network whose stage \<open>k\<close> multiplies every element of its input by the number
  \<open>as ! k\<close>; the gradient of stage \<open>k\<close> weighted by a seed is the seed times \<open>as ! k\<close>.
  Like a convolutional network it refuses an input without elements, and a seed that
  has not the shape of the stage.
\<close>

definition scaling_model :: "real list \<Rightarrow> model" where
  "scaling_model as =
     \<lparr>forward = (\<lambda>x. if flat x = [] then Inl RuntimeError
                      else Inr (map (\<lambda>a. tmap (fl_mul (Fin a)) x) as)),
      backward = (\<lambda>x k seed. if k < length as \<and> same_shape seed x
                              then Inr (tmap (fl_mul (Fin (as ! k))) seed)
                              else Inl RuntimeError)\<rparr>"

text \<open>An objective with a constant seed: the sum of the activations of stage 0.\<close>

definition sum_grad_fn :: grad_fn where
  "sum_grad_fn output =
     (if 0 < length output then Inr (0, tmap (\<lambda>v. Fin 1) (output ! 0)) else Inl IndexError)"

text \<open>
  An objective that looks at one channel only: the sum of the first channel of stage 0.
  Its seed is 1 on that channel and 0 on the others.
\<close>

definition first_channel_grad_fn :: grad_fn where
  "first_channel_grad_fn output =
     (case output of
        [] \<Rightarrow> Inl IndexError
      | o0 # rest \<Rightarrow>
          (case o0 of
             [] \<Rightarrow> Inl IndexError
           | ch # chs \<Rightarrow> Inr (0, tmap (\<lambda>v. Fin 1) [ch] @ zeros_like chs)))"

text \<open>
  The matrix product in the arithmetic of the elements: entry \<open>(i, j)\<close> is the sum of
  the products of row \<open>i\<close> of \<open>a\<close> and column \<open>j\<close> of \<open>b\<close>.
\<close>

definition plain_matmul :: matmul where
  "plain_matmul a b =
     map (\<lambda>row. map (\<lambda>j. fl_sum (map2 (\<lambda>x brow. fl_mul x (brow ! j)) row b))
                  [0..<length (hd b)]) a"

text \<open>Resampling by the nearest neighbour.\<close>

definition nearest :: resampler where
  "nearest ow oh img =
     map (\<lambda>i. map (\<lambda>j. img ! (i * length img div oh) ! (j * width img div ow)) [0..<ow])
       [0..<oh]"

definition white :: image where
  "white = replicate 256 (replicate 256 (255, 255, 255))"

section \<open>Predicates of the statements\<close>

definition tensor_fin :: "tensor \<Rightarrow> bool" where
  "tensor_fin t = list_all (list_all (list_all is_fin)) t"

definition unit_range :: "tensor \<Rightarrow> bool" where
  "unit_range t = list_all (list_all (list_all (\<lambda>v. is_fin v \<and> 0 \<le> val v \<and> val v \<le> 1))) t"

text \<open>The contract of automatic differentiation: a gradient has the shape of its variable.\<close>

definition autograd_ok :: "model \<Rightarrow> bool" where
  "autograd_ok m = (\<forall>x k seed gx. backward m x k seed = Inr gx \<longrightarrow> same_shape gx x)"

text \<open>The rows and the row lengths of a picture, and of a result \<open>H x W x C\<close>.\<close>

definition dims :: "'a list list \<Rightarrow> nat list" where
  "dims p = map length p"

text \<open>A tensor is rectangular: every channel has \<open>h\<close> rows of \<open>w\<close> elements.\<close>

definition rect :: "nat \<Rightarrow> nat \<Rightarrow> tensor \<Rightarrow> bool" where
  "rect h w t = (\<forall>ch \<in> set t. length ch = h \<and> (\<forall>row \<in> set ch. length row = w))"

text \<open>Activations of three stages, each one channel of one row with two places.\<close>

definition two_spots :: "tensor list" where
  "two_spots = [[[[Fin 1, Fin 2]]], [[[Fin 1, Fin 2]]], [[[Fin 1, Fin 2]]]]"

text \<open>Activations of two channels at two places, orthogonal to each other.\<close>

definition crossed :: "tensor list" where
  "crossed = [[[[Fin 1, Fin 0]], [[Fin 0, Fin 1]]], [[[Fin 1, Fin 0]], [[Fin 0, Fin 1]]],
              [[[Fin 1, Fin 0]], [[Fin 0, Fin 1]]]]"

definition resampler_ok :: "resampler \<Rightarrow> bool" where
  "resampler_ok rs = (\<forall>ow oh img. dims (rs ow oh img) = replicate oh ow)"

text \<open>A picture of one black pixel.\<close>

definition one_pixel :: image where
  "one_pixel = [[(0, 0, 0)]]"

text \<open>An image state of three channels, two rows and two columns, all zero.\<close>

definition tiny :: tensor where
  "tiny = [[[Fin 0, Fin 0], [Fin 0, Fin 0]], [[Fin 0, Fin 0], [Fin 0, Fin 0]],
           [[Fin 0, Fin 0], [Fin 0, Fin 0]]]"

text \<open>Clamping a number to an interval, as the specification words it.\<close>

definition clamp_to :: "real \<Rightarrow> real \<Rightarrow> real \<Rightarrow> real" where
  "clamp_to lo hi x = (if x < lo then lo else if hi < x then hi else x)"

text \<open>An image state of three channels with one element each.\<close>

definition unit3 :: tensor where
  "unit3 = [[[Fin 1]], [[Fin 1]], [[Fin 1]]]"

text \<open>The picture in which every element is not-a-number.\<close>

definition nan_picture :: tensor where
  "nan_picture = replicate 256 (replicate 256 [NaN, NaN, NaN])"

text \<open>An element holds a \<open>float32\<close> value: a number of the range, or a special value.\<close>

definition is_f32 :: "fl \<Rightarrow> bool" where
  "is_f32 v = (case v of Fin a \<Rightarrow> float32 a = Fin a | PInf \<Rightarrow> True | NInf \<Rightarrow> True | NaN \<Rightarrow> True)"

text \<open>
  A run of \<open>n\<close> iterations is nondegenerate when, in every iteration that it reaches, the
  mean absolute gradient is a number other than zero.
\<close>

primrec nondegenerate ::
  "nat \<Rightarrow> bool \<Rightarrow> model \<Rightarrow> grad_fn \<Rightarrow> fl \<Rightarrow> tensor \<times> rng \<Rightarrow> bool" where
  "nondegenerate 0 do_random_shifts m gf learning_rate s = True"
| "nondegenerate (Suc n) do_random_shifts m gf learning_rate s =
     (case input_grad do_random_shifts m gf (fst s) (snd s) of
        Inl e \<Rightarrow> True
      | Inr (grad, g') \<Rightarrow>
          (case abs_mean grad of Fin a \<Rightarrow> a \<noteq> 0 | PInf \<Rightarrow> False | NInf \<Rightarrow> False | NaN \<Rightarrow> False) \<and>
          nondegenerate n do_random_shifts m gf learning_rate
            (sgd_update learning_rate (fst s) grad, g'))"

definition nondegenerate_run ::
  "bool \<Rightarrow> resampler \<Rightarrow> model \<Rightarrow> rng \<Rightarrow> image \<Rightarrow> int \<Rightarrow> grad_fn \<Rightarrow> fl \<Rightarrow> bool" where
  "nondegenerate_run do_random_shifts rs m g img n_iter gf learning_rate =
     (case img_transform rs img of
        Inl e \<Rightarrow> True
      | Inr data \<Rightarrow> nondegenerate (nat n_iter) do_random_shifts m gf learning_rate (data, g))"

section \<open>Properties\<close>

subsection \<open>The arithmetic of the elements\<close>

lemma float32_big: "(1000000 :: real) < 2 ^ 128 - 2 ^ 103"
  by simp

lemma float32_small: "(1 :: real) / 2 ^ 150 < 1 / 1000000"
  by simp

lemma float32_exact:
  "x = 0 \<or> 1 / 2 ^ 150 < \<bar>x\<bar> \<Longrightarrow> \<bar>x\<bar> < 2 ^ 128 - 2 ^ 103 \<Longrightarrow> float32 x = Fin x"
  by (auto simp: float32_def)

lemma float32_mid: "1 / 1000000 \<le> \<bar>x\<bar> \<Longrightarrow> \<bar>x\<bar> \<le> 1000000 \<Longrightarrow> float32 x = Fin x"
  using float32_big float32_small by (intro float32_exact) linarith+

lemma float32_zero [simp]: "float32 0 = Fin 0"
  by (simp add: float32_def)

lemma float32_one [simp]: "float32 1 = Fin 1"
  by (rule float32_mid) simp_all

text \<open>
  The limits of the range: the largest \<open>float32\<close> is \<open>2^128 - 2^104\<close>, the smallest
  positive one \<open>2^-149\<close>; half way to the next power of two the result is infinite,
  and half way to zero it is zero.
\<close>

lemma float32_limits:
  "float32 (2 ^ 128 - 2 ^ 104) = Fin (2 ^ 128 - 2 ^ 104)"
  "float32 (2 ^ 128 - 2 ^ 103) = PInf"
  "float32 (- (2 ^ 128 - 2 ^ 103)) = NInf"
  "float32 (1 / 2 ^ 149) = Fin (1 / 2 ^ 149)"
  "float32 (1 / 2 ^ 150) = Fin 0"
  by (simp_all add: float32_def)

lemma float32_not_NaN: "float32 x \<noteq> NaN"
  by (simp add: float32_def)

lemma float32_FinD: "float32 x = Fin y \<Longrightarrow> y = x \<or> y = 0 \<and> \<bar>x\<bar> \<le> 1 / 2 ^ 150"
  by (auto simp: float32_def split: if_splits)

lemma float32_Fin_nonzero: "float32 x = Fin y \<Longrightarrow> y \<noteq> 0 \<Longrightarrow> y = x"
  by (auto dest: float32_FinD)

lemma is_f32_float32: "is_f32 (float32 x)"
  by (auto simp: is_f32_def float32_def)

lemma fl_add_zero: "is_f32 x \<Longrightarrow> fl_add x (Fin 0) = x"
  by (cases x) (simp_all add: is_f32_def)

subsection \<open>Reproducibility\<close>

lemma input_grad_no_shift:
  "input_grad False m gf data g =
     (case forward m data of Inl e \<Rightarrow> Inl e
      | Inr output \<Rightarrow> (case gf output of Inl e \<Rightarrow> Inl e
         | Inr (k, seed) \<Rightarrow> (case backward m data k seed of Inl e \<Rightarrow> Inl e | Inr gx \<Rightarrow> Inr (gx, g))))"
  by (simp add: input_grad_def split: sum.splits prod.splits)

lemma input_grad_rng_indep:
  "input_grad False m gf data g = map_sum id (\<lambda>(G, r). (G, g)) (input_grad False m gf data g')"
  by (simp add: input_grad_no_shift split: sum.splits prod.splits)

lemma dream_step_rng_indep:
  "dream_step False m gf lr (data, g) = map_sum id (\<lambda>(d, r). (d, g)) (dream_step False m gf lr (data, g'))"
  by (simp add: dream_step_def input_grad_no_shift split: sum.splits prod.splits)

lemma dream_loop_rng_indep:
  "dream_loop n False m gf lr (data, g) = map_sum id (\<lambda>(d, r). (d, g)) (dream_loop n False m gf lr (data, g'))"
proof (induction n arbitrary: data g g')
  case 0
  show ?case by simp
next
  case (Suc n)
  show ?case
  proof (cases "dream_step False m gf lr (data, g')")
    case (Inl e)
    with dream_step_rng_indep [of m gf lr data g g'] show ?thesis by simp
  next
    case (Inr s)
    obtain d r where s: "s = (d, r)" by (cases s)
    from Inr s dream_step_rng_indep [of m gf lr data g g']
    have "dream_step False m gf lr (data, g) = Inr (d, g)" by simp
    moreover have "dream_loop n False m gf lr (d, g) = map_sum id (\<lambda>(d, r'). (d, g)) (dream_loop n False m gf lr (d, r))"
      by (rule Suc.IH)
    ultimately show ?thesis using Inr s by (simp add: id_def)
  qed
qed

text \<open>
  Claim C9. With the random shifts disabled, \<open>dream\<close> never consults the random source:
  two runs on the same picture, objective, iteration count and learning rate return the
  same result whatever the random sources hold.
\<close>

theorem dream_reproducible:
  "dream False rs m g1 img n_iter gf lr = dream False rs m g2 img n_iter gf lr"
proof (cases "img_transform rs img")
  case (Inl e)
  then show ?thesis by (simp add: dream_def)
next
  case (Inr data)
  show ?thesis
    using dream_loop_rng_indep [of "nat n_iter" m gf lr data g1 g2] Inr
    by (simp add: dream_def split: sum.splits prod.splits)
qed

subsection \<open>The picture transforms\<close>

lemma byte_margin:
  fixes k a :: nat and m :: real
  assumes "real a / 255 + 1 / 1000 < m" and "m < (real a + 1) / 255 - 1 / 1000"
  shows "1 / 1000 < \<bar>real k / 255 - m\<bar>"
proof (cases "k \<le> a")
  case True
  then have "real k \<le> real a" by simp
  then have "real k / 255 \<le> real a / 255" by simp
  with assms(1) show ?thesis by linarith
next
  case False
  then have "a + 1 \<le> k" by simp
  then have "real a + 1 \<le> real k" by linarith
  then have "(real a + 1) / 255 \<le> real k / 255" by simp
  with assms(2) show ?thesis by linarith
qed

lemma norm_elem:
  assumes k: "k \<le> (255 :: nat)" and mg: "1 / 1000 < \<bar>real k / 255 - m\<bar>"
    and m: "0 \<le> m" "m \<le> 1" and s: "1 / 10 \<le> s" "s \<le> 1"
  shows "fl_div (fl_sub (Fin (real k / 255)) (Fin m)) (Fin s) = Fin ((real k / 255 - m) / s)"
proof -
  have u: "0 \<le> real k / 255" "real k / 255 \<le> 1" using k by simp_all
  have b: "\<bar>real k / 255 - m\<bar> \<le> 1" using u m by linarith
  have 1: "float32 (real k / 255 - m) = Fin (real k / 255 - m)"
    using mg b by (intro float32_mid) linarith+
  have "1 / 1000 \<le> \<bar>real k / 255 - m\<bar> / s"
  proof -
    have "1 / 1000 \<le> \<bar>real k / 255 - m\<bar> / 1" using mg by simp
    also have "\<dots> \<le> \<bar>real k / 255 - m\<bar> / s" using s by (intro divide_left_mono) simp_all
    finally show ?thesis .
  qed
  moreover have "\<bar>real k / 255 - m\<bar> / s \<le> 10"
  proof -
    have "\<bar>real k / 255 - m\<bar> / s \<le> 1 / s" using b s by (intro divide_right_mono) simp_all
    also have "\<dots> \<le> 1 / (1 / 10)" using s by (intro divide_left_mono) simp_all
    finally show ?thesis by simp
  qed
  ultimately have 2: "float32 ((real k / 255 - m) / s) = Fin ((real k / 255 - m) / s)"
    using s by (intro float32_mid) (simp_all add: abs_divide)
  show ?thesis using s by (simp add: fl_sub_def 1 2)
qed

lemma byte_le: "unat (x :: 8 word) \<le> 255"
proof -
  have "unat x < 2 ^ LENGTH(8)" by (rule unsigned_less)
  then show ?thesis by simp
qed

lemma norm_r:
  "fl_div (fl_sub (Fin (unsigned (x :: 8 word) / 255)) (Fin (97 / 200))) (Fin (229 / 1000)) =
     Fin ((unsigned x / 255 - 97 / 200) / (229 / 1000))"
proof -
  have "1 / 1000 < \<bar>real (unat x) / 255 - 97 / 200\<bar>" by (rule byte_margin [of 123]) simp_all
  from norm_elem [OF byte_le this, of "229 / 1000"] show ?thesis by simp
qed

lemma norm_g:
  "fl_div (fl_sub (Fin (unsigned (x :: 8 word) / 255)) (Fin (57 / 125))) (Fin (28 / 125)) =
     Fin ((unsigned x / 255 - 57 / 125) / (28 / 125))"
proof -
  have "1 / 1000 < \<bar>real (unat x) / 255 - 57 / 125\<bar>" by (rule byte_margin [of 116]) simp_all
  from norm_elem [OF byte_le this, of "28 / 125"] show ?thesis by simp
qed

lemma norm_b:
  "fl_div (fl_sub (Fin (unsigned (x :: 8 word) / 255)) (Fin (203 / 500))) (Fin (9 / 40)) =
     Fin ((unsigned x / 255 - 203 / 500) / (9 / 40))"
proof -
  have "1 / 1000 < \<bar>real (unat x) / 255 - 203 / 500\<bar>" by (rule byte_margin [of 103]) simp_all
  from norm_elem [OF byte_le this, of "9 / 40"] show ?thesis by simp
qed

lemma transformed_explicit:
  "normalize_img (ToTensor pic) =
     [map (map (\<lambda>(r, g, b). Fin ((real (unat r) / 255 - 485 / 1000) / (229 / 1000)))) pic,
      map (map (\<lambda>(r, g, b). Fin ((real (unat g) / 255 - 456 / 1000) / (224 / 1000)))) pic,
      map (map (\<lambda>(r, g, b). Fin ((real (unat b) / 255 - 406 / 1000) / (225 / 1000)))) pic]"
  by (simp add: normalize_img_def Normalize_def ToTensor_def mean_def std_def
      comp_def case_prod_unfold norm_r norm_g norm_b)

lemma unnorm_elem:
  assumes k: "k \<le> (255 :: nat)" and m: "0 \<le> m" "m \<le> 1" and s: "1 / 10 \<le> s" "s \<le> 1"
  shows "fl_div (fl_sub (Fin ((real k / 255 - m) / s)) (Fin (- (m / s)))) (Fin (1 / s)) =
           Fin (real k / 255)"
proof -
  have s0: "0 < s" using s by linarith
  have e: "(real k / 255 - m) / s + m / s = real k / 255 / s"
    by (simp add: diff_divide_distrib)
  have sub: "fl_sub (Fin ((real k / 255 - m) / s)) (Fin (- (m / s))) = float32 (real k / 255 / s)"
    by (simp add: fl_sub_def e)
  show ?thesis
  proof (cases "k = 0")
    case True
    show ?thesis unfolding sub using True s0 by (simp add: float32_zero)
  next
    case False
    then have "1 \<le> real k" by simp
    then have lo: "1 / 255 \<le> real k / 255" by simp
    have hi: "real k / 255 \<le> 1" using k by simp
    have "1 / 255 \<le> real k / 255 / 1" using lo by simp
    also have "\<dots> \<le> real k / 255 / s" using s s0 lo by (intro divide_left_mono) simp_all
    finally have l2: "1 / 255 \<le> real k / 255 / s" .
    have "real k / 255 / s \<le> 1 / s" using hi s0 by (intro divide_right_mono) simp_all
    also have "\<dots> \<le> 1 / (1 / 10)" using s by (intro divide_left_mono) simp_all
    finally have h2: "real k / 255 / s \<le> 10" by simp
    have 1: "float32 (real k / 255 / s) = Fin (real k / 255 / s)"
      using l2 h2 by (intro float32_mid) linarith+
    have 2: "float32 (real k / 255) = Fin (real k / 255)"
      using lo hi by (intro float32_mid) linarith+
    have 3: "real k / 255 / s / (1 / s) = real k / 255" using s0 by simp
    have d: "fl_div (Fin (real k / 255 / s)) (Fin (1 / s)) = float32 (real k / 255 / s / (1 / s))"
      using s0 by simp
    show ?thesis unfolding sub 1 d 3 2 by (rule refl)
  qed
qed

lemma Normalize_3:
  "Normalize [m0, m1, m2] [s0, s1, s2] [a, b, c] =
     [map (map (\<lambda>v. fl_div (fl_sub v m0) s0)) a,
      map (map (\<lambda>v. fl_div (fl_sub v m1) s1)) b,
      map (map (\<lambda>v. fl_div (fl_sub v m2) s2)) c]"
  by (simp add: Normalize_def)

lemma unnormalize_consts:
  "unnormalize =
     Normalize [Fin (- (485 / 1000 / (229 / 1000))), Fin (- (456 / 1000 / (224 / 1000))),
                Fin (- (406 / 1000 / (225 / 1000)))]
               [Fin (1 / (229 / 1000)), Fin (1 / (224 / 1000)), Fin (1 / (225 / 1000))]"
  by (simp add: unnormalize_def mean_def std_def float32_def)

lemma unnormalize_transformed: "unnormalize (normalize_img (ToTensor pic)) = ToTensor pic"
proof -
  have ch: "map (map (\<lambda>v. fl_div (fl_sub v (Fin (- (m / s)))) (Fin (1 / s))))
              (map (map (\<lambda>p. Fin ((real (unat (f p)) / 255 - m) / s))) pic) =
            map (map (\<lambda>p. Fin (real (unat (f p)) / 255))) pic"
    if "0 \<le> m" "m \<le> 1" "1 / 10 \<le> s" "s \<le> 1" for m s and f :: "pixel \<Rightarrow> 8 word"
    unfolding map_map o_def
    by (intro map_cong refl unnorm_elem byte_le that)
  have r: "map (map (\<lambda>v. fl_div (fl_sub v (Fin (- (485 / 1000 / (229 / 1000)))))
                               (Fin (1 / (229 / 1000)))))
             (map (map (\<lambda>p. Fin ((real (unat (fst p)) / 255 - 485 / 1000) / (229 / 1000)))) pic) =
           map (map (\<lambda>p. Fin (real (unat (fst p)) / 255))) pic"
    by (rule ch) simp_all
  have g: "map (map (\<lambda>v. fl_div (fl_sub v (Fin (- (456 / 1000 / (224 / 1000)))))
                               (Fin (1 / (224 / 1000)))))
             (map (map (\<lambda>p. Fin ((real (unat (fst (snd p))) / 255 - 456 / 1000) / (224 / 1000)))) pic) =
           map (map (\<lambda>p. Fin (real (unat (fst (snd p))) / 255))) pic"
    by (rule ch) simp_all
  have b: "map (map (\<lambda>v. fl_div (fl_sub v (Fin (- (406 / 1000 / (225 / 1000)))))
                               (Fin (1 / (225 / 1000)))))
             (map (map (\<lambda>p. Fin ((real (unat (snd (snd p))) / 255 - 406 / 1000) / (225 / 1000)))) pic) =
           map (map (\<lambda>p. Fin (real (unat (snd (snd p))) / 255))) pic"
    by (rule ch) simp_all
  have "unnormalize (normalize_img (ToTensor pic)) =
          [map (map (\<lambda>p. Fin (real (unat (fst p)) / 255))) pic,
           map (map (\<lambda>p. Fin (real (unat (fst (snd p))) / 255))) pic,
           map (map (\<lambda>p. Fin (real (unat (snd (snd p))) / 255))) pic]"
    by (simp only: transformed_explicit unnormalize_consts Normalize_3 case_prod_unfold r g b)
  also have "\<dots> = ToTensor pic"
    by (simp only: ToTensor_def case_prod_unfold)
  finally show ?thesis .
qed

lemma byte_bounds: "\<not> (unsigned (x :: 8 word) :: real) < 0 \<and> \<not> 255 < (unsigned x :: real)"
proof -
  have n: "unat x \<le> 255" by (rule byte_le)
  have u: "(unsigned x :: real) = real (unat x)" by (simp only: of_nat_unat)
  have "real (unat x) \<le> real 255" using n by (simp only: of_nat_le_iff)
  then have hi: "(unsigned x :: real) \<le> 255" unfolding u by simp
  have "0 \<le> real (unat x)" by (rule of_nat_0_le_iff)
  then have lo: "0 \<le> (unsigned x :: real)" unfolding u .
  from lo hi show ?thesis by simp
qed

lemma transformed_above: "tchan fl_max (normalize_img (ToTensor pic)) clamp_min = normalize_img (ToTensor pic)"
  unfolding transformed_explicit
  by (simp add: tchan_def clamp_min_def mean_def std_def comp_def case_prod_unfold fl_max_def
      byte_bounds float32_def)

lemma transformed_below: "tchan fl_min (normalize_img (ToTensor pic)) clamp_max = normalize_img (ToTensor pic)"
  unfolding transformed_explicit
  by (simp add: tchan_def clamp_max_def mean_def std_def comp_def case_prod_unfold fl_min_def
      fl_sub_def byte_bounds float32_def)

lemma clamp01_ToTensor: "clamp01 (ToTensor pic) = ToTensor pic"
  using byte_bounds
  by (simp add: clamp01_def tmap_def ToTensor_def comp_def case_prod_unfold fl_max_def fl_min_def)

text \<open>
  Claim C7. With iteration count 0 no step is taken: whatever the model and the objective
  are (they may raise on every call), whatever the learning rate and the random source,
  the result is the picture's normalised form, unnormalised and clamped to \<open>[0, 1]\<close>.
  Unnormalising undoes the normalising and the clamp changes nothing, so that the result
  is the resized picture itself, its bytes scaled to \<open>[0, 1]\<close> (rounding left out).
\<close>

theorem dream_no_iterations:
  "dream shifts rs m g img 0 gf lr =
     (case Resize rs 256 img of
        Inl e \<Rightarrow> Inl e
      | Inr pic \<Rightarrow> Inr (permute (clamp01 (unnormalize (normalize_img (ToTensor pic)))))) \<and>
   dream shifts rs m g img 0 gf lr =
     (case Resize rs 256 img of
        Inl e \<Rightarrow> Inl e
      | Inr pic \<Rightarrow> Inr (permute (ToTensor pic)))"
  by (simp add: dream_def img_transform_def unnormalize_transformed clamp01_ToTensor
      split: sum.splits)

subsection \<open>Failures\<close>

lemma input_grad_Inl:
  "input_grad shifts m gf data g = Inl e \<Longrightarrow>
     (\<exists>x. forward m x = Inl e) \<or> (\<exists>out. gf out = Inl e) \<or> (\<exists>x k seed. backward m x k seed = Inl e)"
  unfolding input_grad_def
  by (auto simp: Let_def split: if_splits prod.splits sum.splits)

lemma dream_step_Inl:
  "dream_step shifts m gf lr s = Inl e \<Longrightarrow>
     (\<exists>x. forward m x = Inl e) \<or> (\<exists>out. gf out = Inl e) \<or> (\<exists>x k seed. backward m x k seed = Inl e)"
  unfolding dream_step_def
  by (cases s) (auto split: sum.splits prod.splits dest: input_grad_Inl)

lemma dream_loop_Inl:
  "dream_loop n shifts m gf lr s = Inl e \<Longrightarrow>
     (\<exists>x. forward m x = Inl e) \<or> (\<exists>out. gf out = Inl e) \<or> (\<exists>x k seed. backward m x k seed = Inl e)"
proof (induction n arbitrary: s)
  case 0
  then show ?case by simp
next
  case (Suc n)
  show ?case
  proof (cases "dream_step shifts m gf lr s")
    case (Inl e')
    with Suc.prems have "e' = e" by simp
    with Inl show ?thesis by (auto dest: dream_step_Inl)
  next
    case (Inr s')
    with Suc.prems have "dream_loop n shifts m gf lr s' = Inl e" by simp
    then show ?thesis by (rule Suc.IH)
  qed
qed

text \<open>
  Claim C4, as the code has it. \<open>dream\<close> checks nothing at entry. With a negative (or
  zero) iteration count it takes no step and returns the unnormalised, clamped
  pre-processed picture, whatever the learning rate. And whatever the configuration, a
  failure of \<open>dream\<close> is a failure raised by the picture transform, by a forward pass, by
  the objective or by a backward pass: none comes from a check of the configuration.
\<close>

theorem dream_rejects_nothing:
  "(n_iter \<le> 0 \<longrightarrow>
      dream shifts rs m g img n_iter gf lr =
        (case img_transform rs img of
           Inl e \<Rightarrow> Inl e
         | Inr data \<Rightarrow> Inr (permute (clamp01 (unnormalize data))))) \<and>
   (dream shifts rs m g img n_iter gf lr = Inl e \<longrightarrow>
      img_transform rs img = Inl e \<or> (\<exists>x. forward m x = Inl e) \<or> (\<exists>out. gf out = Inl e) \<or>
      (\<exists>x k seed. backward m x k seed = Inl e))"
proof (intro conjI impI)
  assume "n_iter \<le> 0"
  then show "dream shifts rs m g img n_iter gf lr =
        (case img_transform rs img of
           Inl e \<Rightarrow> Inl e
         | Inr data \<Rightarrow> Inr (permute (clamp01 (unnormalize data))))"
    by (simp add: dream_def split: sum.splits)
next
  assume a: "dream shifts rs m g img n_iter gf lr = Inl e"
  show "img_transform rs img = Inl e \<or> (\<exists>x. forward m x = Inl e) \<or> (\<exists>out. gf out = Inl e) \<or>
      (\<exists>x k seed. backward m x k seed = Inl e)"
  proof (cases "img_transform rs img")
    case (Inl e')
    with a show ?thesis by (simp add: dream_def)
  next
    case (Inr data)
    with a have "dream_loop (nat n_iter) shifts m gf lr (data, g) = Inl e"
      by (simp add: dream_def split: sum.splits prod.splits)
    then show ?thesis by (blast dest: dream_loop_Inl)
  qed
qed

lemma width_replicate: "0 < n \<Longrightarrow> width (replicate n r) = length r"
  by (cases n) (simp_all add: width_def)

lemma width_white: "width white = 256"
  by (simp add: white_def width_replicate)

lemma Resize_white: "Resize rs 256 white = Inr white"
  by (simp add: Resize_def width_white) (simp add: white_def)

lemma img_transform_white: "img_transform rs white = Inr (normalize_img (ToTensor white))"
  by (simp add: img_transform_def Resize_white)

theorem dream_rejects_nothing_witness:
  "dream False nearest (scaling_model [1, 1, 1]) (\<lambda>k. 0) white (- 1) default_grad_fn (Fin 0) =
     Inr (permute (clamp01 (unnormalize (normalize_img (ToTensor white)))))"
  using dream_rejects_nothing [of "- 1" False nearest "scaling_model [1, 1, 1]" "\<lambda>k. 0" white default_grad_fn "Fin 0"]
  by (simp add: img_transform_white)

text \<open>
  The claim as stated fails: a call with iteration count \<open>-1\<close> and learning rate \<open>-1\<close>
  is not rejected; it returns a picture.
\<close>

theorem negative_n_iter_not_rejected:
  "\<not> isl (dream False nearest (scaling_model [1, 1, 1]) (\<lambda>k. 0) white (- 1) default_grad_fn (Fin (- 1)))"
  by (simp add: dream_def img_transform_white)

subsection \<open>The guided objective\<close>

lemma fl_less_asym: "fl_less x y \<Longrightarrow> \<not> fl_less y x"
  by (cases x; cases y) auto

lemma fl_less_not_NaN: "fl_less x y \<Longrightarrow> x \<noteq> NaN \<and> y \<noteq> NaN"
  by (cases x; cases y) auto

lemma fl_less_trans: "fl_less x y \<Longrightarrow> fl_less y z \<Longrightarrow> fl_less x z"
  by (cases x; cases y; cases z) auto

lemma not_better: "fl_less x best \<Longrightarrow> \<not> better x best"
  by (auto simp: better_def dest: fl_less_asym fl_less_not_NaN)

lemma better_less: "fl_less best x \<Longrightarrow> better x best"
  by (auto simp: better_def dest: fl_less_not_NaN)

lemma argmax_from_keep:
  "(\<forall>x \<in> set xs. fl_less x best) \<Longrightarrow> argmax_from bi best k xs = bi"
  by (induction xs arbitrary: k) (simp_all add: not_better)

lemma argmax_from_find:
  "p < length xs \<Longrightarrow> fl_less best (xs ! p) \<Longrightarrow>
   (\<forall>q < length xs. q \<noteq> p \<longrightarrow> fl_less (xs ! q) (xs ! p)) \<Longrightarrow>
   argmax_from bi best k xs = k + p"
proof (induction xs arbitrary: bi best k p)
  case Nil
  then show ?case by simp
next
  case (Cons x xs)
  show ?case
  proof (cases p)
    case 0
    with Cons.prems have b: "better x best" by (simp add: better_less)
    have "\<forall>y \<in> set xs. fl_less y x"
    proof
      fix y assume "y \<in> set xs"
      then obtain q where q: "q < length xs" "xs ! q = y" by (auto simp: in_set_conv_nth)
      with Cons.prems(3) [rule_format, of "Suc q"] 0 show "fl_less y x" by simp
    qed
    then have "argmax_from k x (Suc k) xs = k" by (rule argmax_from_keep)
    with b 0 show ?thesis by simp
  next
    case (Suc p')
    with Cons.prems have p': "p' < length xs" by simp
    have all: "\<forall>q < length xs. q \<noteq> p' \<longrightarrow> fl_less (xs ! q) (xs ! p')"
    proof (intro allI impI)
      fix q assume "q < length xs" "q \<noteq> p'"
      with Cons.prems(3) [rule_format, of "Suc q"] Suc show "fl_less (xs ! q) (xs ! p')" by simp
    qed
    have x: "fl_less x (xs ! p')"
      using Cons.prems(3) [rule_format, of 0] Suc by simp
    have best: "fl_less best (xs ! p')" using Cons.prems(2) Suc by simp
    show ?thesis
    proof (cases "better x best")
      case True
      then show ?thesis using Cons.IH [OF p' x all, of k "Suc k"] Suc by simp
    next
      case False
      then show ?thesis using Cons.IH [OF p' best all, of bi "Suc k"] Suc by simp
    qed
  qed
qed

lemma argmax_unique_max:
  assumes "p < length xs" and "\<forall>q < length xs. q \<noteq> p \<longrightarrow> fl_less (xs ! q) (xs ! p)"
  shows "argmax xs = p"
proof (cases xs)
  case Nil
  with assms show ?thesis by simp
next
  case (Cons x rest)
  show ?thesis
  proof (cases p)
    case 0
    have "\<forall>y \<in> set rest. fl_less y x"
    proof
      fix y assume "y \<in> set rest"
      then obtain q where q: "q < length rest" "rest ! q = y" by (auto simp: in_set_conv_nth)
      with assms(2) [rule_format, of "Suc q"] 0 Cons show "fl_less y x" by simp
    qed
    then have "argmax_from 0 x 1 rest = 0" by (rule argmax_from_keep)
    with Cons 0 show ?thesis by (simp add: argmax_def)
  next
    case (Suc p')
    with assms(1) Cons have p': "p' < length rest" by simp
    have x: "fl_less x (rest ! p')"
      using assms(2) [rule_format, of 0] Suc Cons by simp
    have all: "\<forall>q < length rest. q \<noteq> p' \<longrightarrow> fl_less (rest ! q) (rest ! p')"
    proof (intro allI impI)
      fix q assume "q < length rest" "q \<noteq> p'"
      with assms(2) [rule_format, of "Suc q"] Suc Cons show "fl_less (rest ! q) (rest ! p')" by simp
    qed
    from argmax_from_find [OF p' x all, of 0 1] Cons Suc show ?thesis by (simp add: argmax_def)
  qed
qed

lemma chunks_Suc: "chunks (Suc h) w xs = take w xs # chunks h w (drop w xs)"
proof -
  have "[0..<Suc h] = 0 # map Suc [0..<h]"
    by (simp add: upt_conv_Cons map_Suc_upt del: upt_Suc)
  then have "chunks (Suc h) w xs = take w xs # map ((\<lambda>i. take w (drop (i * w) xs)) \<circ> Suc) [0..<h]"
    unfolding chunks_def by (simp del: upt_Suc)
  also have "(\<lambda>i. take w (drop (i * w) xs)) \<circ> Suc = (\<lambda>i. take w (drop (i * w) (drop w xs)))"
    by (rule ext) (simp add: add.commute)
  finally show ?thesis by (simp add: chunks_def)
qed

lemma chunks_concat:
  "length ch = h \<Longrightarrow> (\<forall>row \<in> set ch. length row = w) \<Longrightarrow> chunks h w (concat ch) = ch"
proof (induction ch arbitrary: h)
  case Nil
  then show ?case by (simp add: chunks_def)
next
  case (Cons row ch)
  then obtain h' where h: "h = Suc h'" "length ch = h'" by (cases h) auto
  have w: "length row = w" using Cons.prems by simp
  have ih: "chunks h' w (concat ch) = ch" using Cons.IH [OF h(2)] Cons.prems by simp
  show ?case using h w ih by (simp add: chunks_Suc)
qed

lemma length_concat_rect:
  "(\<forall>row \<in> set ch. length row = w) \<Longrightarrow> length (concat ch) = length ch * w"
  by (induction ch) simp_all

text \<open>
  Claim C3, as the code has it. The similarity is the plain dot product, computed by the
  matrix product of the library, so a place is its own best match only where no other
  place has a computed similarity with it that is as large. When the reference
  activations are the working activations and, in the matrix \<open>sim\<close> that \<open>matmul\<close>
  returns for stage 2, every diagonal entry is greater than the other entries of its row,
  \<open>argmax\<close> selects the place itself everywhere, and the gradient that \<open>my_grad_fn\<close>
  injects is the activation tensor of that stage.
\<close>

theorem guided_self_similarity:
  assumes len: "2 < length output" and o3: "output ! 2 = o3" and ne: "o3 \<noteq> []"
    and r: "rect h w o3" and h: "0 < h" and w: "0 < w"
    and mm: "mm (transposed (view2d o3)) (view2d o3) = sim"
    and rows: "length sim = h * w"
    and dom: "\<forall>i < h * w. length (sim ! i) = h * w \<and>
                (\<forall>j < h * w. j \<noteq> i \<longrightarrow> fl_less (sim ! i ! j) (sim ! i ! i))"
  shows "my_grad_fn mm output output = Inr (2, o3) \<and> (\<forall>i < h * w. argmax (sim ! i) = i)"
proof -
  let ?o2 = "view2d o3"
  let ?N = "h * w"
  have am: "argmax (sim ! i) = i" if "i < ?N" for i
    using that dom by (intro argmax_unique_max) auto
  have hd_in: "hd o3 \<in> set o3" using ne by simp
  then have lh: "length (hd o3) = h" and rws: "\<forall>row \<in> set (hd o3). length row = w"
    using r by (auto simp: rect_def)
  from lh h obtain row rest where hd: "hd o3 = row # rest" by (cases "hd o3") auto
  with rws have wrow: "(case hd o3 of [] \<Rightarrow> 0 | row # rest \<Rightarrow> length row) = w" by simp
  have lc: "length (concat ch) = ?N" if "ch \<in> set o3" for ch
    using that r length_concat_rect [of ch w] by (auto simp: rect_def)
  have hd2: "hd ?o2 = concat (hd o3)" using ne by (simp add: view2d_def hd_map)
  have n: "length (hd ?o2) = ?N" using hd2 lc [OF hd_in] by simp
  have idx: "map argmax sim = [0..<?N]"
  proof (rule nth_equalityI)
    show "length (map argmax sim) = length [0..<?N]" using rows by simp
  next
    fix i assume "i < length (map argmax sim)"
    then have "i < ?N" using rows by simp
    then show "map argmax sim ! i = [0..<?N] ! i" using rows by (simp add: am)
  qed
  have inr: "\<not> list_ex (\<lambda>j. ?N \<le> j) [0..<?N]" by (simp add: list_ex_iff)
  have gather: "map (\<lambda>gc. map (\<lambda>j. gc ! j) [0..<?N]) ?o2 = ?o2"
  proof -
    have "map (\<lambda>gc. map (\<lambda>j. gc ! j) [0..<?N]) ?o2 = map (\<lambda>gc. gc) ?o2"
    proof (rule map_cong)
      fix gc assume "gc \<in> set ?o2"
      then have "length gc = ?N" using lc by (auto simp: view2d_def)
      then show "map (\<lambda>j. gc ! j) [0..<?N] = gc" using map_nth [of gc] by simp
    qed simp
    then show ?thesis by simp
  qed
  have unview: "map (chunks h w) ?o2 = o3"
  proof -
    have "map (chunks h w) ?o2 = map (\<lambda>ch. ch) o3"
      unfolding view2d_def map_map
    proof (rule map_cong)
      fix ch assume "ch \<in> set o3"
      then show "(chunks h w \<circ> concat) ch = ch"
        using r by (simp add: rect_def chunks_concat)
    qed simp
    then show ?thesis by simp
  qed
  have pos: "0 < ?N" using h w by simp
  have "my_grad_fn mm output output = Inr (2, o3)"
    using len o3 ne pos inr
    by (simp add: my_grad_fn_def Let_def lh wrow n mm idx gather unview del: map_map)
  with am show ?thesis by simp
qed

lemma upt_2: "[0..<2] = [0, 1]"
  by (simp add: upt_conv_Cons numeral_2_eq_2)

lemma two_spots_product:
  "plain_matmul (transposed (view2d (two_spots ! 2))) (view2d (two_spots ! 2)) =
     [[Fin 1, Fin 2], [Fin 2, Fin 4]]"
  by (simp add: plain_matmul_def transposed_def two_spots_def view2d_def fl_sum_def upt_2
      float32_def)

text \<open>
  The claim as stated fails: with the activations 1 and 2 at two places the similarities
  are 1 and 2 for the first place and 2 and 4 for the second (all exact in \<open>float32\<close>),
  both places select the second one, and the injected gradient holds 2 and 2 where the
  activation holds 1 and 2.
\<close>

theorem self_similarity_picks_other_spot:
  "my_grad_fn plain_matmul two_spots two_spots = Inr (2, [[[Fin 2, Fin 2]]]) \<and>
   two_spots ! 2 = [[[Fin 1, Fin 2]]] \<and>
   argmax (plain_matmul (transposed (view2d (two_spots ! 2))) (view2d (two_spots ! 2)) ! 0) = 1"
proof -
  have "my_grad_fn plain_matmul two_spots two_spots = Inr (2, [[[Fin 2, Fin 2]]])"
    unfolding my_grad_fn_def Let_def two_spots_product
    by (simp add: two_spots_def view2d_def argmax_def better_def chunks_def)
  then show ?thesis
    unfolding two_spots_product by (simp add: two_spots_def argmax_def better_def)
qed

lemma crossed_product:
  "plain_matmul (transposed (view2d (crossed ! 2))) (view2d (crossed ! 2)) =
     [[Fin 1, Fin 0], [Fin 0, Fin 1]]"
  by (simp add: plain_matmul_def transposed_def crossed_def view2d_def fl_sum_def upt_2
      float32_def)

theorem guided_self_similarity_witness:
  "my_grad_fn plain_matmul crossed crossed = Inr (2, crossed ! 2) \<and>
   argmax [Fin 1, Fin 0] = 0 \<and> argmax [Fin 0, Fin 1] = 1"
proof -
  have "2 < length crossed" "crossed ! 2 \<noteq> []" "rect 1 2 (crossed ! 2)"
    by (simp_all add: crossed_def rect_def)
  from guided_self_similarity [where mm = plain_matmul, OF this(1) refl this(2) this(3) _ _ crossed_product]
  show ?thesis by (simp add: less_Suc_eq numeral_2_eq_2)
qed

subsection \<open>Shapes\<close>

lemma zip_map_eqD:
  "map f xs = map g ys \<Longrightarrow> (x, y) \<in> set (zip xs ys) \<Longrightarrow> f x = g y"
proof -
  assume eq: "map f xs = map g ys" and "(x, y) \<in> set (zip xs ys)"
  then obtain i where i: "i < length xs" "i < length ys" "xs ! i = x" "ys ! i = y"
    by (auto simp: in_set_zip)
  from eq have "map f xs ! i = map g ys ! i" by simp
  with i show ?thesis by simp
qed

lemma map_map2_left:
  "length xs = length ys \<Longrightarrow> (\<And>x y. (x, y) \<in> set (zip xs ys) \<Longrightarrow> h (f x y) = k x) \<Longrightarrow>
   map h (map2 f xs ys) = map k xs"
  by (induction xs ys rule: list_induct2) auto

lemma same_shape_refl: "same_shape a a"
  by (simp add: same_shape_def)

lemma same_shape_sym: "same_shape a b \<Longrightarrow> same_shape b a"
  by (simp add: same_shape_def)

lemma same_shape_trans: "same_shape a b \<Longrightarrow> same_shape b c \<Longrightarrow> same_shape a c"
  by (simp add: same_shape_def)

lemma same_shape_length: "same_shape a b \<Longrightarrow> length a = length b"
  unfolding same_shape_def by (drule arg_cong [where f = length]) simp

lemma same_shape_tmap: "same_shape (tmap f t) t"
  by (simp add: same_shape_def tmap_def comp_def)

lemma same_shape_tmap2:
  assumes "same_shape g d"
  shows "same_shape (tmap2 f d g) d"
proof -
  have sh: "map (map length) d = map (map length) g" using assms by (simp add: same_shape_def)
  have len: "length d = length g" using assms by (simp add: same_shape_length)
  have "map (map length) (map2 (map2 (map2 f)) d g) = map (map length) d"
  proof (rule map_map2_left [OF len])
    fix ch gch assume c: "(ch, gch) \<in> set (zip d g)"
    with sh have m: "map length ch = map length gch" by (rule zip_map_eqD)
    then have l: "length ch = length gch" by (auto dest: arg_cong [where f = length])
    show "map length (map2 (map2 f) ch gch) = map length ch"
    proof (rule map_map2_left [OF l])
      fix row grow assume "(row, grow) \<in> set (zip ch gch)"
      with m have "length row = length grow" by (rule zip_map_eqD)
      then show "length (map2 f row grow) = length row" by simp
    qed
  qed
  then show ?thesis by (simp add: same_shape_def tmap2_def)
qed

lemma same_shape_tchan:
  assumes "length t = length cs"
  shows "same_shape (tchan f t cs) t"
proof -
  have "map (map length) (map2 (\<lambda>ch c. map (map (\<lambda>v. f v c)) ch) t cs) = map (map length) t"
    by (rule map_map2_left [OF assms]) (simp add: comp_def)
  then show ?thesis by (simp add: same_shape_def tchan_def)
qed

lemma length_clamp_min: "length clamp_min = 3"
  by (simp add: clamp_min_def mean_def std_def)

lemma length_clamp_max: "length clamp_max = 3"
  by (simp add: clamp_max_def mean_def std_def)

lemma same_shape_sgd_update:
  assumes "same_shape grad data" and "length data = 3"
  shows "same_shape (sgd_update lr data grad) data"
proof -
  let ?d1 = "tmap2 (\<lambda>d g. fl_add d (fl_div (fl_mul g (to_float32 lr)) (abs_mean grad))) data grad"
  let ?d2 = "tchan fl_max ?d1 clamp_min"
  have s1: "same_shape ?d1 data" using assms(1) by (rule same_shape_tmap2)
  then have l1: "length ?d1 = 3" using assms(2) by (simp add: same_shape_length)
  then have s2: "same_shape ?d2 ?d1" by (intro same_shape_tchan) (simp add: length_clamp_min)
  then have l2: "length ?d2 = 3" using l1 by (simp add: same_shape_length)
  then have s3: "same_shape (tchan fl_min ?d2 clamp_max) ?d2"
    by (intro same_shape_tchan) (simp add: length_clamp_max)
  from s3 s2 s1 show ?thesis
    unfolding sgd_update_def Let_def by (blast intro: same_shape_trans)
qed

lemma pyslice_map: "pyslice a b (map f xs) = map f (pyslice a b xs)"
  by (simp add: pyslice_def drop_map take_map)

lemma pyslice_rejoin:
  "a < length zs - b \<Longrightarrow> take a zs @ pyslice a b zs @ drop (length zs - b) zs = zs"
proof -
  assume a: "a < length zs - b"
  let ?k = "length zs - b"
  have "take a zs = take a (take ?k zs)" using a by (simp add: min_def)
  then have "take a zs @ drop a (take ?k zs) = take ?k zs"
    by (metis append_take_drop_id)
  then have "(take a zs @ drop a (take ?k zs)) @ drop ?k zs = zs"
    by simp
  then show ?thesis by (simp add: pyslice_def)
qed

lemma map_assign_slice:
  assumes "map f xs = map f (pyslice a b zs)"
  shows "map f (assign_slice a b zs xs) = map f zs"
proof (cases "a < length zs - b")
  case True
  have "map f (take a zs @ xs @ drop (length zs - b) zs) =
        map f (take a zs @ pyslice a b zs @ drop (length zs - b) zs)"
    using assms by simp
  with True show ?thesis by (simp add: assign_slice_def pyslice_rejoin del: map_append)
next
  case False
  then show ?thesis by (simp add: assign_slice_def)
qed

lemma length_assign_slice:
  "length xs = length (pyslice a b zs) \<Longrightarrow> length (assign_slice a b zs xs) = length zs"
  using map_assign_slice [of "\<lambda>x. ()" xs a b zs]
  by (metis length_map map_replicate_const)

lemma slice_lengths_map:
  "map length (map (pyslice x0 x1) (pyslice y0 y1 (map (map f) ch))) =
   map length (map (pyslice x0 x1) (pyslice y0 y1 ch))"
  by (simp add: pyslice_map comp_def)

lemma same_shape_slice_backward:
  assumes "same_shape gx (slice_hw off data)"
  shows "same_shape (slice_backward off data gx) data"
proof -
  obtain y0 y1 x0 x1 where off: "off = (y0, y1, x0, x1)" by (cases off) auto
  let ?z = "zeros_like data"
  have zsh: "map (map length) ?z = map (map length) data"
    by (simp add: zeros_like_def tmap_def comp_def)
  have gsh: "map (map length) gx = map (\<lambda>ch. map length (map (pyslice x0 x1) (pyslice y0 y1 ch))) ?z"
    using assms off
    by (simp add: same_shape_def slice_hw_def zeros_like_def tmap_def comp_def pyslice_map)
  have len: "length ?z = length gx"
    using gsh by (auto dest: arg_cong [where f = length])
  have "map (map length)
          (map2 (\<lambda>zch gch. assign_slice y0 y1 zch
                   (map2 (\<lambda>zrow grow. assign_slice x0 x1 zrow grow) (pyslice y0 y1 zch) gch))
             ?z gx) = map (map length) ?z"
  proof (rule map_map2_left [OF len])
    fix zch gch assume "(zch, gch) \<in> set (zip ?z gx)"
    then have "(gch, zch) \<in> set (zip gx ?z)" by (auto simp: in_set_zip)
    with gsh have g: "map length gch = map length (map (pyslice x0 x1) (pyslice y0 y1 zch))"
      by (rule zip_map_eqD)
    then have l: "length (pyslice y0 y1 zch) = length gch"
      by (auto dest: arg_cong [where f = length])
    have "map length (map2 (\<lambda>zrow grow. assign_slice x0 x1 zrow grow) (pyslice y0 y1 zch) gch) =
          map length (pyslice y0 y1 zch)"
    proof (rule map_map2_left [OF l])
      fix zrow grow assume "(zrow, grow) \<in> set (zip (pyslice y0 y1 zch) gch)"
      then have "(grow, zrow) \<in> set (zip gch (pyslice y0 y1 zch))" by (auto simp: in_set_zip)
      with g have "length grow = length (pyslice x0 x1 zrow)"
        by (auto dest: zip_map_eqD simp: comp_def)
      then show "length (assign_slice x0 x1 zrow grow) = length zrow"
        by (rule length_assign_slice)
    qed
    then show "map length (assign_slice y0 y1 zch
                 (map2 (\<lambda>zrow grow. assign_slice x0 x1 zrow grow) (pyslice y0 y1 zch) gch)) =
               map length zch"
      by (rule map_assign_slice)
  qed
  with zsh off show ?thesis by (simp add: same_shape_def slice_backward_def)
qed

lemma input_grad_shape:
  assumes "autograd_ok m" and "input_grad shifts m gf data g = Inr (grad, g')"
  shows "same_shape grad data"
proof (cases shifts)
  case False
  with assms(2) obtain out k seed where "backward m data k seed = Inr grad"
    by (auto simp: input_grad_def split: sum.splits prod.splits)
  with assms(1) show ?thesis by (auto simp: autograd_ok_def)
next
  case True
  obtain x off g1 where rs: "random_shift data g = (x, off, g1)" by (cases "random_shift data g") auto
  then have x: "x = slice_hw off data" by (auto simp: random_shift_def split: prod.splits)
  from assms(2) True rs obtain out k seed gx where
    b: "backward m x k seed = Inr gx" and gr: "grad = slice_backward off data gx"
    by (auto simp: input_grad_def split: sum.splits prod.splits)
  from assms(1) b have "same_shape gx x" by (auto simp: autograd_ok_def)
  with x gr show ?thesis by (simp add: same_shape_slice_backward)
qed

lemma dream_step_shape:
  assumes "autograd_ok m" and "length data = 3"
    and "dream_step shifts m gf lr (data, g) = Inr (data', g')"
  shows "same_shape data' data"
proof -
  from assms(3) obtain grad where ig: "input_grad shifts m gf data g = Inr (grad, g')"
    and d': "data' = sgd_update lr data grad"
    by (auto simp: dream_step_def split: sum.splits prod.splits)
  from assms(1) ig have "same_shape grad data" by (rule input_grad_shape)
  with d' assms(2) show ?thesis by (simp add: same_shape_sgd_update)
qed

lemma dream_loop_shape:
  assumes "autograd_ok m"
  shows "length data = 3 \<Longrightarrow> dream_loop n shifts m gf lr (data, g) = Inr (data', g') \<Longrightarrow>
         same_shape data' data"
proof (induction n arbitrary: data g)
  case 0
  then show ?case by (simp add: same_shape_refl)
next
  case (Suc n)
  from Suc.prems(2) obtain d1 g1 where
    st: "dream_step shifts m gf lr (data, g) = Inr (d1, g1)" and
    lp: "dream_loop n shifts m gf lr (d1, g1) = Inr (data', g')"
    by (auto split: sum.splits)
  from assms Suc.prems(1) st have s1: "same_shape d1 data" by (rule dream_step_shape)
  then have "length d1 = 3" using Suc.prems(1) by (simp add: same_shape_length)
  then have "same_shape data' d1" using lp by (rule Suc.IH)
  then show ?case using s1 by (rule same_shape_trans)
qed

lemma map_nth_upt: "map (\<lambda>i. f (xs ! i)) [0..<length xs] = map f xs"
proof -
  have "map (\<lambda>i. f (xs ! i)) [0..<length xs] = map f (map ((!) xs) [0..<length xs])"
    by (simp add: comp_def)
  then show ?thesis by (simp only: map_nth)
qed

lemma dims_permute: "map (map length) t = L # Ls \<Longrightarrow> dims (permute t) = L"
proof -
  assume a: "map (map length) t = L # Ls"
  then obtain ch rest where t: "t = ch # rest" and L: "map length ch = L" by (cases t) auto
  have "dims (permute t) = map (\<lambda>i. length (ch ! i)) [0..<length ch]"
    by (simp add: t permute_def dims_def comp_def)
  also have "\<dots> = map length ch" by (rule map_nth_upt)
  finally show ?thesis using L by simp
qed

lemma pixels_permute: "row \<in> set (permute t) \<Longrightarrow> px \<in> set row \<Longrightarrow> length px = length t"
  by (cases t) (auto simp: permute_def)

lemma same_shape_Normalize:
  assumes "length t \<le> length ms" and "length t \<le> length ss"
  shows "same_shape (Normalize ms ss t) t"
proof -
  have "map (map length) (Normalize ms ss t) = map (map length) t"
  proof (rule nth_equalityI)
    show "length (map (map length) (Normalize ms ss t)) = length (map (map length) t)"
      using assms by (simp add: Normalize_def)
  next
    fix i assume "i < length (map (map length) (Normalize ms ss t))"
    then have "i < length t" "i < length ms" "i < length ss"
      using assms by (simp_all add: Normalize_def)
    then show "map (map length) (Normalize ms ss t) ! i = map (map length) t ! i"
      by (simp add: Normalize_def comp_def)
  qed
  then show ?thesis by (simp add: same_shape_def)
qed

lemma shape_ToTensor: "map (map length) (ToTensor pic) = [dims pic, dims pic, dims pic]"
  by (simp add: ToTensor_def dims_def comp_def)

lemma length_ToTensor: "length (ToTensor pic) = 3"
  by (simp add: ToTensor_def)

lemma shape_normalize_img:
  "map (map length) (normalize_img (ToTensor pic)) = [dims pic, dims pic, dims pic]"
  using same_shape_Normalize [of "ToTensor pic" mean std]
  by (simp add: normalize_img_def same_shape_def shape_ToTensor length_ToTensor mean_def std_def)

lemma length_normalize_img: "length (normalize_img (ToTensor pic)) = 3"
  using shape_normalize_img [of pic] by (auto dest: arg_cong [where f = length])

lemma same_shape_unnormalize: "length t = 3 \<Longrightarrow> same_shape (unnormalize t) t"
  unfolding unnormalize_def
  by (rule same_shape_Normalize) (simp_all add: mean_def std_def)

lemma same_shape_output:
  "length t = 3 \<Longrightarrow> same_shape (clamp01 (unnormalize t)) t"
  unfolding clamp01_def
  by (blast intro: same_shape_trans same_shape_tmap same_shape_unnormalize)

lemma img_transform_Inr:
  "img_transform rs img = Inr data \<Longrightarrow>
     \<exists>pic. Resize rs 256 img = Inr pic \<and> data = normalize_img (ToTensor pic)"
  by (auto simp: img_transform_def split: sum.splits)

lemma dream_result_dims:
  assumes "autograd_ok m" and "dream shifts rs m g img n_iter gf lr = Inr r"
  shows "\<exists>pic. Resize rs 256 img = Inr pic \<and> dims r = dims pic \<and>
           (\<forall>row \<in> set r. \<forall>px \<in> set row. length px = 3)"
proof -
  from assms(2) obtain data data' g' where
    tr: "img_transform rs img = Inr data" and
    lp: "dream_loop (nat n_iter) shifts m gf lr (data, g) = Inr (data', g')" and
    r: "r = permute (clamp01 (unnormalize data'))"
    by (auto simp: dream_def split: sum.splits prod.splits)
  from tr obtain pic where pic: "Resize rs 256 img = Inr pic" "data = normalize_img (ToTensor pic)"
    by (auto dest: img_transform_Inr)
  have l: "length data = 3" using pic by (simp add: length_normalize_img)
  have s: "same_shape data' data" using assms(1) l lp by (rule dream_loop_shape)
  then have l': "length data' = 3" using l by (simp add: same_shape_length)
  then have "same_shape (clamp01 (unnormalize data')) data'" by (rule same_shape_output)
  then have "same_shape (clamp01 (unnormalize data')) data" using s by (rule same_shape_trans)
  then have sh: "map (map length) (clamp01 (unnormalize data')) = [dims pic, dims pic, dims pic]"
    using pic by (simp add: same_shape_def shape_normalize_img)
  then have "dims r = dims pic" unfolding r by (rule dims_permute)
  moreover have "length (clamp01 (unnormalize data')) = 3"
    using sh by (auto dest: arg_cong [where f = length])
  then have "\<forall>row \<in> set r. \<forall>px \<in> set row. length px = 3"
    unfolding r by (auto dest: pixels_permute)
  ultimately show ?thesis using pic by blast
qed

lemma Resize_dims:
  assumes "resampler_ok rs" and "dims img = replicate h w" and "0 < h" and "0 < w"
    and "Resize rs 256 img = Inr pic"
  shows "dims pic = (if w < h then replicate (256 * h div w) 256 else replicate 256 (256 * w div h))"
proof -
  have lh: "length img = h" using assms(2) by (auto simp: dims_def dest: arg_cong [where f = length])
  obtain row rest where img: "img = row # rest" using lh assms(3) by (cases img) auto
  have wd: "width img = w" using assms(2,3) img by (cases h) (auto simp: width_def dims_def)
  show ?thesis
  proof (cases "(w \<le> h \<and> w = 256) \<or> (h \<le> w \<and> h = 256)")
    case True
    with assms(5) have "pic = img" by (simp add: Resize_def wd lh)
    with True assms(2) show ?thesis by auto
  next
    case False
    with assms(5) assms(3,4) have "pic = (if w < h then rs 256 (256 * h div w) img else rs (256 * w div h) 256 img)"
      by (auto simp: Resize_def wd lh split: if_splits)
    with assms(1) show ?thesis by (simp add: resampler_ok_def)
  qed
qed

lemma nearest_ok: "resampler_ok nearest"
  by (simp add: resampler_ok_def nearest_def dims_def comp_def map_replicate_const)

lemma scaling_model_autograd: "autograd_ok (scaling_model as)"
  unfolding autograd_ok_def scaling_model_def
  by (auto simp: same_shape_def tmap_def comp_def split: if_splits)

lemma same_shape_hd: "same_shape a b \<Longrightarrow> a \<noteq> [] \<Longrightarrow> dims (hd a) = dims (hd b)"
  by (cases a; cases b) (auto simp: same_shape_def dims_def)

lemma dims_permute_hd: "t \<noteq> [] \<Longrightarrow> dims (permute t) = dims (hd t)"
proof (cases t)
  case Nil
  assume "t \<noteq> []"
  with Nil show ?thesis by simp
next
  case (Cons ch rest)
  have "dims (permute t) = map length ch"
    by (rule dims_permute [where Ls = "map (map length) rest"]) (simp add: Cons)
  with Cons show ?thesis by (simp add: dims_def)
qed

text \<open>
  Claim C10. With the random shifts enabled the image state keeps its shape. Only the
  input of the forward pass is sliced; the gradient that flows back through the slice has
  the shape of the whole image state, every iterate has the shape of the first one, and so
  has the picture returned from it, whatever offsets are drawn. (The network is any
  collaborator whose gradients have the shape of their variable.)
\<close>

theorem shifted_run_keeps_shape:
  assumes "autograd_ok m" and "length data = 3"
  shows "(\<forall>grad g'. input_grad True m gf data g = Inr (grad, g') \<longrightarrow> same_shape grad data) \<and>
         (\<forall>data' g'. dream_loop n True m gf lr (data, g) = Inr (data', g') \<longrightarrow>
            same_shape data' data \<and>
            dims (permute (clamp01 (unnormalize data'))) = dims (hd data))"
proof (intro conjI allI impI)
  fix grad g' assume "input_grad True m gf data g = Inr (grad, g')"
  with assms(1) show "same_shape grad data" by (rule input_grad_shape)
next
  fix data' g' assume lp: "dream_loop n True m gf lr (data, g) = Inr (data', g')"
  with assms show s: "same_shape data' data" by (rule dream_loop_shape)
  then have l': "length data' = 3" using assms(2) by (simp add: same_shape_length)
  then have "same_shape (clamp01 (unnormalize data')) data'" by (rule same_shape_output)
  then have s2: "same_shape (clamp01 (unnormalize data')) data" using s by (rule same_shape_trans)
  then have "length (clamp01 (unnormalize data')) = 3" using assms(2) by (simp add: same_shape_length)
  then have ne: "clamp01 (unnormalize data') \<noteq> []" by auto
  show "dims (permute (clamp01 (unnormalize data'))) = dims (hd data)"
    using dims_permute_hd [OF ne] same_shape_hd [OF s2 ne] by simp
qed

lemma tiny_grad:
  "input_grad True (scaling_model [1, 1, 1]) sum_grad_fn tiny (\<lambda>k. 0) =
     Inr ([[[Fin 1, Fin 0], [Fin 0, Fin 0]], [[Fin 1, Fin 0], [Fin 0, Fin 0]],
           [[Fin 1, Fin 0], [Fin 0, Fin 0]]], \<lambda>k. 0)"
  by (simp add: input_grad_def random_shift_def draw_shift_def randint_def shift_def slice_hw_def
      pyslice_def scaling_model_def flat_def tmap_def sum_grad_fn_def same_shape_def
      slice_backward_def zeros_like_def assign_slice_def tiny_def float32_one)

lemma tiny_step:
  "dream_loop 1 True (scaling_model [1, 1, 1]) sum_grad_fn (Fin (1 / 4)) (tiny, \<lambda>k. 0) =
     Inr ([[[Fin 1, Fin 0], [Fin 0, Fin 0]], [[Fin 1, Fin 0], [Fin 0, Fin 0]],
           [[Fin 1, Fin 0], [Fin 0, Fin 0]]], \<lambda>k. 0)"
  by (simp add: dream_step_def tiny_grad)
     (simp add: sgd_update_def abs_mean_def flat_def fl_sum_def tmap2_def tchan_def clamp_min_def
        clamp_max_def mean_def std_def fl_max_def fl_min_def fl_sub_def tiny_def float32_def
        to_float32_def)

theorem shifted_run_keeps_shape_witness:
  "same_shape [[[Fin 1, Fin 0], [Fin 0, Fin 0]], [[Fin 1, Fin 0], [Fin 0, Fin 0]],
               [[Fin 1, Fin 0], [Fin 0, Fin 0]]] tiny \<and>
   dims (permute (clamp01 (unnormalize
      [[[Fin 1, Fin 0], [Fin 0, Fin 0]], [[Fin 1, Fin 0], [Fin 0, Fin 0]],
       [[Fin 1, Fin 0], [Fin 0, Fin 0]]]))) = dims (hd tiny) \<and>
   input_grad True (scaling_model [1, 1, 1]) sum_grad_fn tiny (\<lambda>k. 0) =
     Inr ([[[Fin 1, Fin 0], [Fin 0, Fin 0]], [[Fin 1, Fin 0], [Fin 0, Fin 0]],
           [[Fin 1, Fin 0], [Fin 0, Fin 0]]], \<lambda>k. 0) \<and>
   dream_loop 1 True (scaling_model [1, 1, 1]) sum_grad_fn (Fin (1 / 4)) (tiny, \<lambda>k. 0) =
     Inr ([[[Fin 1, Fin 0], [Fin 0, Fin 0]], [[Fin 1, Fin 0], [Fin 0, Fin 0]],
           [[Fin 1, Fin 0], [Fin 0, Fin 0]]], \<lambda>k. 0)"
proof -
  have l: "length tiny = 3" by (simp add: tiny_def)
  from shifted_run_keeps_shape [OF scaling_model_autograd l, of "[1, 1, 1]" sum_grad_fn "\<lambda>k. 0" 1 "Fin (1 / 4)"]
    tiny_grad tiny_step
  show ?thesis by simp
qed

lemma length_flat: "length (flat t) = sum_list (map sum_list (map (map length) t))"
  unfolding flat_def by (induction t) (simp_all add: length_concat)

lemma length_flat_same_shape: "same_shape a b \<Longrightarrow> length (flat a) = length (flat b)"
  by (simp add: length_flat same_shape_def)

lemma length_flat_transformed:
  "length (flat (normalize_img (ToTensor pic))) = 3 * sum_list (dims pic)"
  by (simp add: length_flat shape_normalize_img)

lemma Resize_one_pixel: "Resize nearest 256 one_pixel = Inr (nearest 256 256 one_pixel)"
  by (simp add: Resize_def width_def one_pixel_def)

lemma dims_nearest: "dims (nearest ow oh img) = replicate oh ow"
  using nearest_ok by (simp add: resampler_ok_def)

lemma scaling_sum_grad:
  "flat data \<noteq> [] \<Longrightarrow>
   input_grad False (scaling_model [1, 1, 1]) sum_grad_fn data g = Inr (tmap (\<lambda>v. Fin 1) data, g)"
  by (simp add: input_grad_no_shift scaling_model_def sum_grad_fn_def tmap_def comp_def
      same_shape_def float32_one)

lemma dream_sum_one_step:
  assumes "Resize rs 256 img = Inr pic" and "0 < sum_list (dims pic)"
  shows "dream False rs (scaling_model [1, 1, 1]) g img 1 sum_grad_fn lr =
           Inr (permute (clamp01 (unnormalize
                  (sgd_update lr (normalize_img (ToTensor pic))
                     (tmap (\<lambda>v. Fin 1) (normalize_img (ToTensor pic)))))))"
proof -
  from assms(2) have "0 < 3 * sum_list (dims pic)" by linarith
  then have "0 < length (flat (normalize_img (ToTensor pic)))"
    by (simp only: length_flat_transformed)
  then have "flat (normalize_img (ToTensor pic)) \<noteq> []" by force
  then show ?thesis
    using assms(1) by (simp add: dream_def img_transform_def dream_step_def scaling_sum_grad)
qed

text \<open>
  Claim C6, as the code has it. The pre-processing rescales the picture: a successful run
  returns a picture with the dimensions of the source rescaled so that its smaller edge
  is 256 (\<open>256 * h div w\<close> rows of 256 pixels when the source is narrower than high,
  else 256 rows of \<open>256 * w div h\<close> pixels), each pixel with three channels. These are
  the dimensions of the source only when its smaller edge is 256 already.
\<close>

theorem dream_result_size:
  assumes "autograd_ok m" and "resampler_ok rs" and "dims img = replicate h w"
    and "0 < h" and "0 < w" and "dream shifts rs m g img n_iter gf lr = Inr r"
  shows "dims r = (if w < h then replicate (256 * h div w) 256
                   else replicate 256 (256 * w div h)) \<and>
         (\<forall>row \<in> set r. \<forall>px \<in> set row. length px = 3)"
proof -
  from dream_result_dims [OF assms(1) assms(6)] obtain pic where
    pic: "Resize rs 256 img = Inr pic" "dims r = dims pic"
      "\<forall>row \<in> set r. \<forall>px \<in> set row. length px = 3"
    by blast
  from Resize_dims [OF assms(2) assms(3) assms(4) assms(5) pic(1)] pic show ?thesis by simp
qed

theorem dream_result_size_witness:
  "dims (permute (clamp01 (unnormalize
      (sgd_update (Fin (1 / 50)) (normalize_img (ToTensor (nearest 256 256 one_pixel)))
         (tmap (\<lambda>v. Fin 1) (normalize_img (ToTensor (nearest 256 256 one_pixel)))))))) =
     replicate 256 256 \<and>
   dream False nearest (scaling_model [1, 1, 1]) (\<lambda>k. 0) one_pixel 1 sum_grad_fn (Fin (1 / 50)) =
     Inr (permute (clamp01 (unnormalize
      (sgd_update (Fin (1 / 50)) (normalize_img (ToTensor (nearest 256 256 one_pixel)))
         (tmap (\<lambda>v. Fin 1) (normalize_img (ToTensor (nearest 256 256 one_pixel))))))))"
proof -
  have run: "dream False nearest (scaling_model [1, 1, 1]) (\<lambda>k. 0) one_pixel 1 sum_grad_fn (Fin (1 / 50)) =
     Inr (permute (clamp01 (unnormalize
      (sgd_update (Fin (1 / 50)) (normalize_img (ToTensor (nearest 256 256 one_pixel)))
         (tmap (\<lambda>v. Fin 1) (normalize_img (ToTensor (nearest 256 256 one_pixel))))))))"
    by (rule dream_sum_one_step [OF Resize_one_pixel]) (simp add: dims_nearest sum_list_replicate)
  have d: "dims one_pixel = replicate 1 1" by (simp add: one_pixel_def dims_def)
  from dream_result_size [OF scaling_model_autograd nearest_ok d _ _ run] run
  show ?thesis by simp
qed

text \<open>
  The claim as stated fails: from a source of one pixel, \<open>dream\<close> returns a picture of
  256 rows of 256 pixels.
\<close>

theorem result_larger_than_source:
  "map_sum id dims
     (dream False nearest (scaling_model [1, 1, 1]) (\<lambda>k. 0) one_pixel 0 default_grad_fn (Fin (1 / 50))) =
     Inr (replicate 256 256) \<and> dims one_pixel = [1]"
proof -
  have "dims (permute (clamp01 (unnormalize (normalize_img (ToTensor (nearest 256 256 one_pixel)))))) =
        dims (nearest 256 256 one_pixel)"
  proof (rule dims_permute)
    have "same_shape (clamp01 (unnormalize (normalize_img (ToTensor (nearest 256 256 one_pixel)))))
            (normalize_img (ToTensor (nearest 256 256 one_pixel)))"
      by (rule same_shape_output) (rule length_normalize_img)
    then show "map (map length)
        (clamp01 (unnormalize (normalize_img (ToTensor (nearest 256 256 one_pixel))))) =
        dims (nearest 256 256 one_pixel) #
        [dims (nearest 256 256 one_pixel), dims (nearest 256 256 one_pixel)]"
      by (simp add: same_shape_def shape_normalize_img)
  qed
  then show ?thesis
    by (simp add: dream_def img_transform_def Resize_one_pixel dims_nearest)
       (simp add: one_pixel_def dims_def)
qed

lemma fl_add_NaN: "fl_add x NaN = NaN"
  by (cases x) simp_all

lemma is_fin_conv: "is_fin x \<longleftrightarrow> (\<exists>a. x = Fin a)"
  by (cases x) simp_all

lemma is_fin_val: "is_fin x \<Longrightarrow> x = Fin (val x)"
  by (cases x) simp_all

lemma fl_add_FinD: "fl_add x y = Fin s \<Longrightarrow> is_fin x \<and> is_fin y"
  by (cases x; cases y) simp_all

lemma fl_abs_fin: "is_fin (fl_abs x) \<longleftrightarrow> is_fin x"
  by (cases x) simp_all

lemma fl_sum_Cons: "fl_sum (x # xs) = fl_add x (fl_sum xs)"
  by (simp add: fl_sum_def)

lemma fl_sum_Nil: "fl_sum [] = Fin 0"
  by (simp add: fl_sum_def)

lemma fl_sum_abs_FinD: "fl_sum (map fl_abs xs) = Fin s \<Longrightarrow> list_all is_fin xs"
proof (induction xs arbitrary: s)
  case Nil
  then show ?case by simp
next
  case (Cons x xs)
  from Cons.prems have a: "fl_add (fl_abs x) (fl_sum (map fl_abs xs)) = Fin s"
    by (simp add: fl_sum_Cons)
  then have x: "is_fin (fl_abs x)" and r: "is_fin (fl_sum (map fl_abs xs))"
    by (auto dest: fl_add_FinD)
  from r obtain s' where "fl_sum (map fl_abs xs) = Fin s'" by (auto simp: is_fin_conv)
  then have "list_all is_fin xs" by (rule Cons.IH)
  with x show ?case by (simp add: fl_abs_fin)
qed

lemma fl_div_FinD: "fl_div x (Fin n) = Fin a \<Longrightarrow> is_fin x"
  by (cases x) (simp_all split: if_splits)

lemma abs_mean_FinD: "abs_mean t = Fin a \<Longrightarrow> list_all is_fin (flat t)"
  unfolding abs_mean_def
  by (auto dest!: fl_div_FinD fl_sum_abs_FinD simp: is_fin_conv)

lemma nth_in_flat:
  "c < length t \<Longrightarrow> i < length (t ! c) \<Longrightarrow> j < length (t ! c ! i) \<Longrightarrow> t ! c ! i ! j \<in> set (flat t)"
  unfolding flat_def by (auto intro!: bexI [of _ "t ! c ! i"] bexI [of _ "t ! c"])

lemma same_shape_nth:
  assumes "same_shape a b" and "c < length a"
  shows "length (a ! c) = length (b ! c)"
    and "i < length (a ! c) \<Longrightarrow> length (a ! c ! i) = length (b ! c ! i)"
proof -
  have l: "length a = length b" using assms(1) by (rule same_shape_length)
  have "map (map length) a ! c = map (map length) b ! c"
    using assms(1) by (simp add: same_shape_def)
  then have m: "map length (a ! c) = map length (b ! c)" using assms(2) l by simp
  then show lc: "length (a ! c) = length (b ! c)"
    by (auto dest: arg_cong [where f = length])
  assume "i < length (a ! c)"
  with m lc show "length (a ! c ! i) = length (b ! c ! i)"
    by (metis nth_map)
qed

lemma nth_tmap2:
  assumes "same_shape b a" and "c < length a" and "i < length (a ! c)" and "j < length (a ! c ! i)"
  shows "tmap2 f a b ! c ! i ! j = f (a ! c ! i ! j) (b ! c ! i ! j)"
proof -
  have s: "same_shape a b" using assms(1) by (rule same_shape_sym)
  have l: "length a = length b" using s by (rule same_shape_length)
  have lc: "length (a ! c) = length (b ! c)" using s assms(2) by (rule same_shape_nth)
  have li: "length (a ! c ! i) = length (b ! c ! i)" using s assms(2,3) by (rule same_shape_nth)
  show ?thesis using assms l lc li by (simp add: tmap2_def)
qed

lemma nth_tchan:
  "c < length t \<Longrightarrow> c < length cs \<Longrightarrow> i < length (t ! c) \<Longrightarrow> j < length (t ! c ! i) \<Longrightarrow>
   tchan f t cs ! c ! i ! j = f (t ! c ! i ! j) (cs ! c)"
  by (simp add: tchan_def)

lemma clamp_min_nth: "c < 3 \<Longrightarrow> clamp_min ! c = Fin (- val (mean ! c) / val (std ! c))"
  by (auto simp: clamp_min_def mean_def std_def less_Suc_eq numeral_3_eq_3 float32_def)

lemma clamp_max_nth: "c < 3 \<Longrightarrow> clamp_max ! c = Fin ((1 - val (mean ! c)) / val (std ! c))"
  by (auto simp: clamp_max_def mean_def std_def fl_sub_def less_Suc_eq numeral_3_eq_3 float32_def)

lemma clamp_bounds_ordered: "c < 3 \<Longrightarrow> - val (mean ! c) / val (std ! c) \<le> (1 - val (mean ! c)) / val (std ! c)"
  by (auto simp: mean_def std_def less_Suc_eq numeral_3_eq_3)

lemma fl_clamp_fin:
  "lo \<le> hi \<Longrightarrow> fl_min (fl_max (Fin x) (Fin lo)) (Fin hi) = Fin (clamp_to lo hi x)"
  by (auto simp: fl_min_def fl_max_def clamp_to_def)

subsection \<open>One iteration\<close>

lemma nth_sgd_update:
  assumes sh: "same_shape grad data" and l3: "length data = 3"
    and c: "c < 3" and i: "i < length (data ! c)" and j: "j < length (data ! c ! i)"
  shows "sgd_update lr data grad ! c ! i ! j =
           fl_min (fl_max (fl_add (data ! c ! i ! j)
                      (fl_div (fl_mul (grad ! c ! i ! j) (to_float32 lr)) (abs_mean grad)))
                    (clamp_min ! c)) (clamp_max ! c)"
proof -
  let ?f = "\<lambda>d g. fl_add d (fl_div (fl_mul g (to_float32 lr)) (abs_mean grad))"
  let ?d1 = "tmap2 ?f data grad"
  let ?d2 = "tchan fl_max ?d1 clamp_min"
  have cl: "c < length data" using c l3 by simp
  have s1: "same_shape ?d1 data" using sh by (rule same_shape_tmap2)
  have l1: "length ?d1 = 3" using s1 l3 by (simp add: same_shape_length)
  have c1: "c < length ?d1" using c l1 by simp
  have i1: "i < length (?d1 ! c)" using same_shape_nth(1) [OF s1 c1] i by simp
  have j1: "j < length (?d1 ! c ! i)" using same_shape_nth(2) [OF s1 c1 i1] j by simp
  have s2: "same_shape ?d2 ?d1" by (rule same_shape_tchan) (simp add: l1 length_clamp_min)
  have l2: "length ?d2 = 3" using s2 l1 by (simp add: same_shape_length)
  have c2: "c < length ?d2" using c l2 by simp
  have i2: "i < length (?d2 ! c)" using same_shape_nth(1) [OF s2 c2] i1 by simp
  have j2: "j < length (?d2 ! c ! i)" using same_shape_nth(2) [OF s2 c2 i2] j1 by simp
  have "sgd_update lr data grad ! c ! i ! j = fl_min (?d2 ! c ! i ! j) (clamp_max ! c)"
    unfolding sgd_update_def Let_def using c2 i2 j2 c by (simp add: nth_tchan length_clamp_max)
  also have "?d2 ! c ! i ! j = fl_max (?d1 ! c ! i ! j) (clamp_min ! c)"
    using c1 i1 j1 c by (simp add: nth_tchan length_clamp_min)
  also have "?d1 ! c ! i ! j = ?f (data ! c ! i ! j) (grad ! c ! i ! j)"
    using sh cl i j by (rule nth_tmap2)
  finally show ?thesis .
qed

lemma is_f32_range: "is_f32 (Fin a) \<Longrightarrow> a = 0 \<or> 1 / 2 ^ 150 < \<bar>a\<bar>"
  by (auto simp: is_f32_def float32_def split: if_splits)

lemma float32_Fin_range: "float32 x = Fin y \<Longrightarrow> y = 0 \<or> 1 / 2 ^ 150 < \<bar>y\<bar>"
  by (auto simp: float32_def split: if_splits)

lemma fl_sum_abs_exact:
  "\<forall>v \<in> set xs. is_f32 v \<Longrightarrow> fl_sum (map fl_abs xs) = Fin s \<Longrightarrow>
   s = sum_list (map (\<lambda>v. \<bar>val v\<bar>) xs) \<and> (s = 0 \<or> 1 / 2 ^ 150 < s)"
proof (induction xs arbitrary: s)
  case Nil
  then show ?case by (simp add: fl_sum_Nil)
next
  case (Cons x xs)
  from Cons.prems(2) have a: "fl_add (fl_abs x) (fl_sum (map fl_abs xs)) = Fin s"
    by (simp add: fl_sum_Cons)
  then have "is_fin (fl_abs x)" and "is_fin (fl_sum (map fl_abs xs))"
    by (auto dest: fl_add_FinD)
  then have "is_fin x" and "is_fin (fl_sum (map fl_abs xs))"
    by (simp_all add: fl_abs_fin)
  then obtain b s' where x: "x = Fin b" and r: "fl_sum (map fl_abs xs) = Fin s'"
    unfolding is_fin_conv by blast
  from Cons.prems(1) have "\<forall>v \<in> set xs. is_f32 v" by simp
  from Cons.IH [OF this r] have s': "s' = sum_list (map (\<lambda>v. \<bar>val v\<bar>) xs)"
    and t': "s' = 0 \<or> 1 / 2 ^ 150 < s'" by blast+
  have nn: "0 \<le> s'" unfolding s' by (rule sum_list_nonneg) auto
  from Cons.prems(1) x have "is_f32 (Fin b)" by simp
  then have tb: "b = 0 \<or> 1 / 2 ^ 150 < \<bar>b\<bar>" by (rule is_f32_range)
  from a x r have f: "float32 (\<bar>b\<bar> + s') = Fin s" by simp
  have e: "s = \<bar>b\<bar> + s'"
  proof (cases "s = 0")
    case True
    with f have "\<bar>\<bar>b\<bar> + s'\<bar> \<le> 1 / 2 ^ 150" by (auto dest: float32_FinD)
    with nn tb t' have "b = 0 \<and> s' = 0" by auto
    with True show ?thesis by simp
  next
    case False
    with f show ?thesis by (rule float32_Fin_nonzero)
  qed
  have "s = 0 \<or> 1 / 2 ^ 150 < \<bar>s\<bar>" using f by (rule float32_Fin_range)
  moreover have "0 \<le> s" using e nn by simp
  ultimately have "s = 0 \<or> 1 / 2 ^ 150 < s" by auto
  with e show ?case using x s' by simp
qed

lemma abs_mean_exact:
  assumes "\<forall>v \<in> set (flat t). is_f32 v" and "abs_mean t = Fin gm" and "gm \<noteq> 0"
  shows "gm = sum_list (map (\<lambda>v. \<bar>val v\<bar>) (flat t)) / real (length (flat t))"
proof -
  from assms(2) have d: "fl_div (fl_sum (map fl_abs (flat t))) (Fin (real (length (flat t)))) = Fin gm"
    by (simp add: abs_mean_def)
  then have "is_fin (fl_sum (map fl_abs (flat t)))" by (rule fl_div_FinD)
  then obtain s where s: "fl_sum (map fl_abs (flat t)) = Fin s" by (auto simp: is_fin_conv)
  from fl_sum_abs_exact [OF assms(1) s] have e: "s = sum_list (map (\<lambda>v. \<bar>val v\<bar>) (flat t))"
    by simp
  from d s have "float32 (s / real (length (flat t))) = Fin gm"
    by (simp split: if_splits)
  then have "gm = s / real (length (flat t))" using assms(3) by (rule float32_Fin_nonzero)
  with e show ?thesis by simp
qed

text \<open>
  Claim C1, as the code has it. In an iteration whose gradient has a mean absolute value
  \<open>gm\<close> that is a number other than zero, the step succeeds; \<open>gm\<close> is the sum of the
  absolute values of the gradient divided by the number of its elements; and every
  element of the new image state is computed as the old element plus gradient times
  learning rate divided by \<open>gm\<close>, then \<open>max\<close> with the lower bound of its channel,
  \<open>-mean / std\<close>, then \<open>min\<close> with the upper one, \<open>(1 - mean) / std\<close>, all in
  \<open>float32\<close>. Where the element and the learning rate are numbers of the range of
  \<open>float32\<close> and no intermediate result leaves that range, the new element is the real
  number old plus gradient times learning rate divided by \<open>gm\<close>, clamped to the two
  bounds. (The gradient holds \<open>float32\<close> values.)
\<close>

theorem dream_step_formula:
  assumes ig: "input_grad shifts m gf data g = Inr (grad, g')"
    and f32: "\<forall>v \<in> set (flat grad). is_f32 v"
    and gm: "abs_mean grad = Fin gm" and nz: "gm \<noteq> 0"
    and sh: "same_shape grad data" and l3: "length data = 3"
    and c: "c < 3" and i: "i < length (data ! c)" and j: "j < length (data ! c ! i)"
  shows "\<exists>data'. dream_step shifts m gf lr (data, g) = Inr (data', g') \<and>
           gm = sum_list (map (\<lambda>v. \<bar>val v\<bar>) (flat grad)) / real (length (flat grad)) \<and>
           data' ! c ! i ! j =
             fl_min (fl_max (fl_add (data ! c ! i ! j)
                               (fl_div (fl_mul (grad ! c ! i ! j) (to_float32 lr)) (Fin gm)))
                       (Fin (- val (mean ! c) / val (std ! c))))
                    (Fin ((1 - val (mean ! c)) / val (std ! c))) \<and>
           (\<forall>d r. data ! c ! i ! j = Fin d \<and> to_float32 lr = Fin r \<and>
                  float32 (val (grad ! c ! i ! j) * r) = Fin (val (grad ! c ! i ! j) * r) \<and>
                  float32 (val (grad ! c ! i ! j) * r / gm) = Fin (val (grad ! c ! i ! j) * r / gm) \<and>
                  float32 (d + val (grad ! c ! i ! j) * r / gm) =
                    Fin (d + val (grad ! c ! i ! j) * r / gm) \<longrightarrow>
              data' ! c ! i ! j =
                Fin (clamp_to (- val (mean ! c) / val (std ! c)) ((1 - val (mean ! c)) / val (std ! c))
                       (d + val (grad ! c ! i ! j) * r / gm)))"
proof -
  let ?lo = "- val (mean ! c) / val (std ! c)"
  let ?hi = "(1 - val (mean ! c)) / val (std ! c)"
  let ?g = "grad ! c ! i ! j"
  have st: "dream_step shifts m gf lr (data, g) = Inr (sgd_update lr data grad, g')"
    using ig by (simp add: dream_step_def)
  have mean: "gm = sum_list (map (\<lambda>v. \<bar>val v\<bar>) (flat grad)) / real (length (flat grad))"
    using f32 gm nz by (rule abs_mean_exact)
  have s: "same_shape data grad" using sh by (rule same_shape_sym)
  have cl: "c < length data" using c l3 by simp
  have cg: "c < length grad" using cl s by (simp add: same_shape_length)
  have ig': "i < length (grad ! c)" using same_shape_nth(1) [OF s cl] i by simp
  have jg: "j < length (grad ! c ! i)" using same_shape_nth(2) [OF s cl i] j by simp
  have "?g \<in> set (flat grad)" using cg ig' jg by (rule nth_in_flat)
  moreover have "list_all is_fin (flat grad)" using gm by (rule abs_mean_FinD)
  ultimately have "is_fin ?g" by (simp add: list_all_iff)
  then have gv: "?g = Fin (val ?g)" by (rule is_fin_val)
  have el: "sgd_update lr data grad ! c ! i ! j =
      fl_min (fl_max (fl_add (data ! c ! i ! j) (fl_div (fl_mul ?g (to_float32 lr)) (Fin gm)))
                (Fin ?lo)) (Fin ?hi)"
    using nth_sgd_update [OF sh l3 c i j, of lr]
    by (simp only: gm clamp_min_nth [OF c] clamp_max_nth [OF c])
  have fin: "sgd_update lr data grad ! c ! i ! j = Fin (clamp_to ?lo ?hi (d + val ?g * r / gm))"
    if d: "data ! c ! i ! j = Fin d" and r: "to_float32 lr = Fin r"
      and p: "float32 (val ?g * r) = Fin (val ?g * r)"
      and q: "float32 (val ?g * r / gm) = Fin (val ?g * r / gm)"
      and a: "float32 (d + val ?g * r / gm) = Fin (d + val ?g * r / gm)" for d r
  proof -
    have "fl_mul ?g (to_float32 lr) = Fin (val ?g * r)"
      by (subst gv) (simp only: r fl_mul.simps p)
    then have "fl_div (fl_mul ?g (to_float32 lr)) (Fin gm) = Fin (val ?g * r / gm)"
      using nz by (simp add: q)
    then have "fl_add (data ! c ! i ! j) (fl_div (fl_mul ?g (to_float32 lr)) (Fin gm)) =
        Fin (d + val ?g * r / gm)"
      by (simp only: d fl_add.simps a)
    then show ?thesis
      unfolding el using fl_clamp_fin [OF clamp_bounds_ordered [OF c], of "d + val ?g * r / gm"]
      by (simp only:)
  qed
  show ?thesis
  proof (intro exI conjI allI impI)
    show "dream_step shifts m gf lr (data, g) = Inr (sgd_update lr data grad, g')" by (rule st)
    show "gm = sum_list (map (\<lambda>v. \<bar>val v\<bar>) (flat grad)) / real (length (flat grad))" by (rule mean)
    show "sgd_update lr data grad ! c ! i ! j =
      fl_min (fl_max (fl_add (data ! c ! i ! j) (fl_div (fl_mul ?g (to_float32 lr)) (Fin gm)))
                (Fin ?lo)) (Fin ?hi)" by (rule el)
  next
    fix d r
    assume "data ! c ! i ! j = Fin d \<and> to_float32 lr = Fin r \<and>
                  float32 (val ?g * r) = Fin (val ?g * r) \<and>
                  float32 (val ?g * r / gm) = Fin (val ?g * r / gm) \<and>
                  float32 (d + val ?g * r / gm) = Fin (d + val ?g * r / gm)"
    then show "sgd_update lr data grad ! c ! i ! j = Fin (clamp_to ?lo ?hi (d + val ?g * r / gm))"
      by (intro fin) simp_all
  qed
qed

lemma tiny_grad_down:
  "input_grad True (scaling_model [- 1, 1, 1]) sum_grad_fn tiny (\<lambda>k. 0) =
     Inr ([[[Fin (- 1), Fin 0], [Fin 0, Fin 0]], [[Fin (- 1), Fin 0], [Fin 0, Fin 0]],
           [[Fin (- 1), Fin 0], [Fin 0, Fin 0]]], \<lambda>k. 0)"
  by (simp add: input_grad_def random_shift_def draw_shift_def randint_def shift_def slice_hw_def
      pyslice_def scaling_model_def flat_def tmap_def sum_grad_fn_def same_shape_def
      slice_backward_def zeros_like_def assign_slice_def tiny_def float32_def)

lemma tiny_grad_down_mean:
  "abs_mean [[[Fin (- 1), Fin 0], [Fin 0, Fin 0]], [[Fin (- 1), Fin 0], [Fin 0, Fin 0]],
             [[Fin (- 1), Fin 0], [Fin 0, Fin 0]]] = Fin (1 / 4)"
  by (simp add: abs_mean_def flat_def fl_sum_def float32_def)

lemma tiny_step_down:
  "dream_step True (scaling_model [- 1, 1, 1]) sum_grad_fn (Fin (1 / 4)) (tiny, \<lambda>k. 0) =
     Inr ([[[Fin (- 1), Fin 0], [Fin 0, Fin 0]], [[Fin (- 1), Fin 0], [Fin 0, Fin 0]],
           [[Fin (- 1), Fin 0], [Fin 0, Fin 0]]], \<lambda>k. 0)"
  by (simp add: dream_step_def tiny_grad_down)
     (simp add: sgd_update_def tiny_grad_down_mean tmap2_def tchan_def clamp_min_def
        clamp_max_def mean_def std_def fl_max_def fl_min_def fl_sub_def tiny_def float32_def
        to_float32_def)

theorem dream_step_formula_witness:
  "dream_step True (scaling_model [- 1, 1, 1]) sum_grad_fn (Fin (1 / 4)) (tiny, \<lambda>k. 0) =
     Inr ([[[Fin (- 1), Fin 0], [Fin 0, Fin 0]], [[Fin (- 1), Fin 0], [Fin 0, Fin 0]],
           [[Fin (- 1), Fin 0], [Fin 0, Fin 0]]], \<lambda>k. 0) \<and>
   (1 / 4 :: real) =
     sum_list (map (\<lambda>v. \<bar>val v\<bar>)
       (flat [[[Fin (- 1), Fin 0], [Fin 0, Fin 0]], [[Fin (- 1), Fin 0], [Fin 0, Fin 0]],
              [[Fin (- 1), Fin 0], [Fin 0, Fin 0]]])) /
     real (length (flat [[[Fin (- 1), Fin 0], [Fin 0, Fin 0]], [[Fin (- 1), Fin 0], [Fin 0, Fin 0]],
                         [[Fin (- 1), Fin 0], [Fin 0, Fin 0]]])) \<and>
   [[[Fin (- 1), Fin 0], [Fin 0, Fin 0]], [[Fin (- 1), Fin 0], [Fin 0, Fin 0]],
    [[Fin (- 1), Fin 0], [Fin 0, Fin 0]]] ! 0 ! 0 ! 0 =
     Fin (clamp_to (- val (mean ! 0) / val (std ! 0)) ((1 - val (mean ! 0)) / val (std ! 0))
            (0 + (- 1) * (1 / 4) / (1 / 4)))"
proof -
  let ?G = "[[[Fin (- 1), Fin 0], [Fin 0, Fin 0]], [[Fin (- 1), Fin 0], [Fin 0, Fin 0]],
             [[Fin (- 1), Fin 0], [Fin 0, Fin 0]]]"
  have sh: "same_shape ?G tiny" by (simp add: same_shape_def tiny_def)
  have l3: "length tiny = 3" by (simp add: tiny_def)
  have f32: "\<forall>v \<in> set (flat ?G). is_f32 v"
    by (simp add: flat_def is_f32_def float32_def)
  have nz: "(1 / 4 :: real) \<noteq> 0" by simp
  have c: "(0 :: nat) < 3" by simp
  have i: "0 < length (tiny ! 0)" and j: "0 < length (tiny ! 0 ! 0)" by (simp_all add: tiny_def)
  from dream_step_formula [OF tiny_grad_down f32 tiny_grad_down_mean nz sh l3 c i j, of "Fin (1 / 4)"]
  obtain data' where
    d: "dream_step True (scaling_model [- 1, 1, 1]) sum_grad_fn (Fin (1 / 4)) (tiny, \<lambda>k. 0) =
          Inr (data', \<lambda>k. 0)"
    and mn: "(1 / 4 :: real) = sum_list (map (\<lambda>v. \<bar>val v\<bar>) (flat ?G)) / real (length (flat ?G))"
    and f: "\<forall>d r. tiny ! 0 ! 0 ! 0 = Fin d \<and> to_float32 (Fin (1 / 4)) = Fin r \<and>
                  float32 (val (?G ! 0 ! 0 ! 0) * r) = Fin (val (?G ! 0 ! 0 ! 0) * r) \<and>
                  float32 (val (?G ! 0 ! 0 ! 0) * r / (1 / 4)) =
                    Fin (val (?G ! 0 ! 0 ! 0) * r / (1 / 4)) \<and>
                  float32 (d + val (?G ! 0 ! 0 ! 0) * r / (1 / 4)) =
                    Fin (d + val (?G ! 0 ! 0 ! 0) * r / (1 / 4)) \<longrightarrow>
              data' ! 0 ! 0 ! 0 =
                Fin (clamp_to (- val (mean ! 0) / val (std ! 0)) ((1 - val (mean ! 0)) / val (std ! 0))
                       (d + val (?G ! 0 ! 0 ! 0) * r / (1 / 4)))"
    by blast
  from d tiny_step_down have e: "data' = ?G" by simp
  have "data' ! 0 ! 0 ! 0 =
          Fin (clamp_to (- val (mean ! 0) / val (std ! 0)) ((1 - val (mean ! 0)) / val (std ! 0))
                 (0 + val (?G ! 0 ! 0 ! 0) * (1 / 4) / (1 / 4)))"
    by (rule f [rule_format]) (simp add: tiny_def to_float32_def float32_def)
  then have v: "?G ! 0 ! 0 ! 0 =
          Fin (clamp_to (- val (mean ! 0) / val (std ! 0)) ((1 - val (mean ! 0)) / val (std ! 0))
                 (0 + (- 1) * (1 / 4) / (1 / 4)))"
    unfolding e by simp
  from tiny_step_down mn v show ?thesis by (intro conjI)
qed

text \<open>The first iteration on a white picture, for the objective of the first channel.\<close>

lemma white_transformed:
  "normalize_img (ToTensor white) =
     [replicate 256 (replicate 256 (Fin (515 / 229))),
      replicate 256 (replicate 256 (Fin (17 / 7))),
      replicate 256 (replicate 256 (Fin (66 / 25)))]"
  unfolding transformed_explicit by (simp add: white_def)

lemma concat_replicate_replicate: "concat (replicate n (replicate m x)) = replicate (n * m) x"
  by (induction n) (simp_all add: replicate_add)

lemma white_grad:
  "input_grad False (scaling_model [1, 1, 1]) first_channel_grad_fn (normalize_img (ToTensor white)) g =
     Inr ([replicate 256 (replicate 256 (Fin 1)),
           replicate 256 (replicate 256 (Fin 0)),
           replicate 256 (replicate 256 (Fin 0))], g)"
  unfolding white_transformed
  by (simp add: input_grad_no_shift scaling_model_def first_channel_grad_fn_def tmap_def
      zeros_like_def flat_def same_shape_def float32_def concat_replicate_replicate)

lemma fl_sum_zeros: "fl_sum (replicate n (Fin 0)) = Fin 0"
  by (induction n) (simp_all add: fl_sum_def)

lemma fl_sum_ones_zeros:
  "n \<le> 1000000 \<Longrightarrow> fl_sum (replicate n (Fin 1) @ replicate m (Fin 0)) = Fin (real n)"
proof (induction n)
  case 0
  show ?case by (simp add: fl_sum_zeros)
next
  case (Suc n)
  then have ih: "fl_sum (replicate n (Fin 1) @ replicate m (Fin 0)) = Fin (real n)" by simp
  have "real (Suc n) \<le> real 1000000" using Suc.prems by (simp only: of_nat_le_iff)
  then have f: "float32 (1 + real n) = Fin (1 + real n)" by (intro float32_mid) simp_all
  have "fl_sum (replicate (Suc n) (Fin 1) @ replicate m (Fin 0)) =
        fl_add (Fin 1) (fl_sum (replicate n (Fin 1) @ replicate m (Fin 0)))"
    by (simp add: fl_sum_def)
  also have "\<dots> = float32 (1 + real n)" by (simp only: ih fl_add.simps)
  finally show ?case by (simp add: f)
qed

lemma white_grad_mean:
  "abs_mean [replicate 256 (replicate 256 (Fin 1)),
             replicate 256 (replicate 256 (Fin 0)),
             replicate 256 (replicate 256 (Fin 0))] = Fin (1 / 3)"
proof -
  have "flat [replicate 256 (replicate 256 (Fin 1)), replicate 256 (replicate 256 (Fin 0)),
              replicate 256 (replicate 256 (Fin 0))] =
        replicate 65536 (Fin 1) @ replicate 131072 (Fin 0)"
    by (simp add: flat_def concat_replicate_replicate replicate_add [symmetric])
  moreover have "fl_sum (replicate 65536 (Fin 1) @ replicate 131072 (Fin 0)) = Fin (real 65536)"
    by (rule fl_sum_ones_zeros) simp
  ultimately show ?thesis by (simp add: abs_mean_def float32_def)
qed

lemma white_huge_step:
  "sgd_update (Fin (10 ^ 39))
     [replicate 256 (replicate 256 (Fin (515 / 229))),
      replicate 256 (replicate 256 (Fin (17 / 7))),
      replicate 256 (replicate 256 (Fin (66 / 25)))]
     [replicate 256 (replicate 256 (Fin 1)),
      replicate 256 (replicate 256 (Fin 0)),
      replicate 256 (replicate 256 (Fin 0))] =
     [replicate 256 (replicate 256 (Fin (515 / 229))),
      replicate 256 (replicate 256 NaN),
      replicate 256 (replicate 256 NaN)]"
  by (simp add: sgd_update_def white_grad_mean tmap2_def tchan_def clamp_min_def clamp_max_def
      mean_def std_def fl_max_def fl_min_def fl_sub_def float32_def to_float32_def)

text \<open>
  The claim as stated fails for a learning rate beyond the range of \<open>float32\<close>, which
  \<open>dream\<close> does not reject: with the rate \<open>10^39\<close> the product with the gradient is
  computed with an infinity. Take the first iteration on a white picture of 256 by 256
  pixels, with an objective whose gradient is 1 on the first channel and 0 on the two
  others (mean absolute value 1/3). An element of the second channel, which is 17/7
  before the step and has the gradient zero, becomes not-a-number (\<open>0 * inf\<close>) where
  the claim has \<open>17/7 + 0 * 10^39 / (1/3)\<close>, clamped, which is 17/7.
\<close>

theorem huge_rate_leaves_formula:
  "input_grad False (scaling_model [1, 1, 1]) first_channel_grad_fn
     (normalize_img (ToTensor white)) (\<lambda>k. 0) =
     Inr ([replicate 256 (replicate 256 (Fin 1)), replicate 256 (replicate 256 (Fin 0)),
           replicate 256 (replicate 256 (Fin 0))], \<lambda>k. 0) \<and>
   abs_mean [replicate 256 (replicate 256 (Fin 1)), replicate 256 (replicate 256 (Fin 0)),
             replicate 256 (replicate 256 (Fin 0))] = Fin (1 / 3) \<and>
   dream_step False (scaling_model [1, 1, 1]) first_channel_grad_fn (Fin (10 ^ 39))
     (normalize_img (ToTensor white), \<lambda>k. 0) =
     Inr ([replicate 256 (replicate 256 (Fin (515 / 229))), replicate 256 (replicate 256 NaN),
           replicate 256 (replicate 256 NaN)], \<lambda>k. 0) \<and>
   normalize_img (ToTensor white) ! 1 ! 0 ! 0 = Fin (17 / 7) \<and>
   [replicate 256 (replicate 256 (Fin (515 / 229))), replicate 256 (replicate 256 NaN),
    replicate 256 (replicate 256 NaN)] ! 1 ! 0 ! 0 \<noteq>
     Fin (clamp_to (- val (mean ! 1) / val (std ! 1)) ((1 - val (mean ! 1)) / val (std ! 1))
            (17 / 7 + 0 * 10 ^ 39 / (1 / 3)))"
proof -
  have st: "dream_step False (scaling_model [1, 1, 1]) first_channel_grad_fn (Fin (10 ^ 39))
              (normalize_img (ToTensor white), \<lambda>k. 0) =
            Inr ([replicate 256 (replicate 256 (Fin (515 / 229))),
                  replicate 256 (replicate 256 NaN),
                  replicate 256 (replicate 256 NaN)], \<lambda>k. 0)"
    by (simp only: dream_step_def prod.case white_grad [unfolded white_transformed] sum.case
        white_transformed white_huge_step)
  have el: "normalize_img (ToTensor white) ! 1 ! 0 ! 0 = Fin (17 / 7)"
    by (simp add: white_transformed)
  have ne: "[replicate 256 (replicate 256 (Fin (515 / 229))), replicate 256 (replicate 256 NaN),
    replicate 256 (replicate 256 NaN)] ! 1 ! 0 ! 0 \<noteq>
     Fin (clamp_to (- val (mean ! 1) / val (std ! 1)) ((1 - val (mean ! 1)) / val (std ! 1))
            (17 / 7 + 0 * 10 ^ 39 / (1 / 3)))"
    by simp
  from white_grad [of "\<lambda>k. 0"] white_grad_mean st el ne show ?thesis by (intro conjI)
qed
subsection \<open>A gradient that is zero\<close>

lemma map2_left_eq:
  "length xs = length ys \<Longrightarrow> (\<And>x y. (x, y) \<in> set (zip xs ys) \<Longrightarrow> f x y = h x) \<Longrightarrow>
   map2 f xs ys = map h xs"
  by (induction xs ys rule: list_induct2) auto

lemma in_flatI: "ch \<in> set t \<Longrightarrow> row \<in> set ch \<Longrightarrow> v \<in> set row \<Longrightarrow> v \<in> set (flat t)"
  unfolding flat_def by auto

lemma tmap2_left:
  assumes sh: "same_shape b a"
    and f: "\<And>d v. d \<in> set (flat a) \<Longrightarrow> v \<in> set (flat b) \<Longrightarrow> f d v = h d"
  shows "tmap2 f a b = tmap h a"
proof -
  have shape: "map (map length) a = map (map length) b" using sh by (simp add: same_shape_def)
  have len: "length a = length b" using sh by (simp add: same_shape_length)
  have "map2 (map2 (map2 f)) a b = map (map (map h)) a"
  proof (rule map2_left_eq [OF len])
    fix ch gch assume c: "(ch, gch) \<in> set (zip a b)"
    then have gb: "gch \<in> set b" by (rule set_zip_rightD)
    from c have ga: "ch \<in> set a" by (rule set_zip_leftD)
    from shape c have m: "map length ch = map length gch" by (rule zip_map_eqD)
    then have l: "length ch = length gch" by (auto dest: arg_cong [where f = length])
    show "map2 (map2 f) ch gch = map (map h) ch"
    proof (rule map2_left_eq [OF l])
      fix row grow assume r: "(row, grow) \<in> set (zip ch gch)"
      then have gg: "grow \<in> set gch" by (rule set_zip_rightD)
      from r have ra: "row \<in> set ch" by (rule set_zip_leftD)
      from m r have lr: "length row = length grow" by (rule zip_map_eqD)
      show "map2 f row grow = map h row"
      proof (rule map2_left_eq [OF lr])
        fix d v assume dv: "(d, v) \<in> set (zip row grow)"
        then have "v \<in> set grow" by (rule set_zip_rightD)
        with gb gg have vb: "v \<in> set (flat b)" by (rule in_flatI)
        from dv have "d \<in> set row" by (rule set_zip_leftD)
        with ga ra have "d \<in> set (flat a)" by (rule in_flatI)
        then show "f d v = h d" using vb by (rule f)
      qed
    qed
  qed
  then show ?thesis by (simp add: tmap2_def tmap_def)
qed

lemma tchan_tmap:
  assumes "length t = length cs" and "\<And>v c. f (h v) c = k v"
  shows "tchan f (tmap h t) cs = tmap k t"
proof -
  have "map2 (\<lambda>ch c. map (map (\<lambda>v. f v c)) ch) (map (map (map h)) t) cs = map (map (map k)) t"
    using assms(1)
  proof (induction t cs rule: list_induct2)
    case Nil
    show ?case by simp
  next
    case (Cons ch t c cs)
    then show ?case by (simp add: assms(2) comp_def)
  qed
  then show ?thesis by (simp add: tchan_def tmap_def)
qed

lemma fl_sum_abs_zero: "(\<forall>v \<in> set xs. v = Fin 0) \<Longrightarrow> fl_sum (map fl_abs xs) = Fin 0"
  by (induction xs) (simp_all add: fl_sum_def float32_zero)

lemma abs_mean_zero:
  "(\<forall>v \<in> set (flat grad). v = Fin 0) \<Longrightarrow> flat grad \<noteq> [] \<Longrightarrow> abs_mean grad = Fin 0"
  by (simp add: abs_mean_def fl_sum_abs_zero)

lemma fl_max_NaN: "fl_max NaN c = NaN"
  by (simp add: fl_max_def)

lemma fl_min_NaN: "fl_min NaN c = NaN"
  by (simp add: fl_min_def)

lemma zero_step_NaN: "fl_div (fl_mul (Fin 0) r) (Fin 0) = NaN"
  by (cases r) (simp_all add: float32_zero)

lemma sgd_update_zero_grad:
  assumes "same_shape grad data" and "length data = 3"
    and "\<forall>v \<in> set (flat grad). v = Fin 0" and "flat grad \<noteq> []"
  shows "sgd_update lr data grad = tmap (\<lambda>v. NaN) data"
proof -
  have gm: "abs_mean grad = Fin 0" using assms(3,4) by (rule abs_mean_zero)
  have "tmap2 (\<lambda>d g. fl_add d (fl_div (fl_mul g (to_float32 lr)) (Fin 0))) data grad =
        tmap (\<lambda>v. NaN) data"
  proof (rule tmap2_left [OF assms(1)])
    fix d v assume "v \<in> set (flat grad)"
    with assms(3) have "v = Fin 0" by simp
    then show "fl_add d (fl_div (fl_mul v (to_float32 lr)) (Fin 0)) = NaN"
      by (simp add: zero_step_NaN fl_add_NaN)
  qed
  moreover have "tchan fl_max (tmap (\<lambda>v. NaN) data) clamp_min = tmap (\<lambda>v. NaN) data"
    by (rule tchan_tmap) (simp_all add: assms(2) length_clamp_min fl_max_NaN)
  moreover have "tchan fl_min (tmap (\<lambda>v. NaN) data) clamp_max = tmap (\<lambda>v. NaN) data"
    by (rule tchan_tmap) (simp_all add: assms(2) length_clamp_max fl_min_NaN)
  ultimately show ?thesis by (simp add: sgd_update_def gm)
qed

lemma Normalize_NaN:
  assumes "length t \<le> length ms" and "length t \<le> length ss"
  shows "Normalize ms ss (tmap (\<lambda>v. NaN) t) = tmap (\<lambda>v. NaN) t"
proof (rule nth_equalityI)
  show "length (Normalize ms ss (tmap (\<lambda>v. NaN) t)) = length (tmap (\<lambda>v. NaN) t)"
    using assms by (simp add: Normalize_def tmap_def)
next
  fix i assume "i < length (Normalize ms ss (tmap (\<lambda>v. NaN) t))"
  then have "i < length t" "i < length ms" "i < length ss"
    using assms by (simp_all add: Normalize_def tmap_def)
  then show "Normalize ms ss (tmap (\<lambda>v. NaN) t) ! i = tmap (\<lambda>v. NaN) t ! i"
    by (simp add: Normalize_def tmap_def comp_def fl_sub_def)
qed

lemma output_NaN:
  "length t = 3 \<Longrightarrow> clamp01 (unnormalize (tmap (\<lambda>v. NaN) t)) = tmap (\<lambda>v. NaN) t"
  by (simp add: unnormalize_def Normalize_NaN mean_def std_def)
     (simp add: clamp01_def tmap_def comp_def fl_max_NaN fl_min_NaN)

text \<open>
  Claim C5, as the code has it. When the gradient of an iteration is zero everywhere,
  nothing is raised: the mean absolute gradient is 0, the step of every element is
  \<open>0 * learning_rate / 0\<close>, which is not-a-number, and the iteration succeeds with an
  image state that is not-a-number at every element. The step is no no-op, and neither the
  clipping nor the final unnormalising and clamping removes the not-a-number.
\<close>

theorem zero_gradient_step:
  assumes "input_grad shifts m gf data g = Inr (grad, g')"
    and "\<forall>v \<in> set (flat grad). v = Fin 0" and "flat grad \<noteq> []"
    and "same_shape grad data" and "length data = 3"
  shows "abs_mean grad = Fin 0 \<and>
         dream_step shifts m gf lr (data, g) = Inr (tmap (\<lambda>v. NaN) data, g') \<and>
         clamp01 (unnormalize (tmap (\<lambda>v. NaN) data)) = tmap (\<lambda>v. NaN) data"
  using assms
  by (simp add: abs_mean_zero dream_step_def sgd_update_zero_grad output_NaN)

lemma unit3_grad:
  "input_grad False (scaling_model [1, 1, 0]) default_grad_fn unit3 (\<lambda>k. 0) =
     Inr ([[[Fin 0]], [[Fin 0]], [[Fin 0]]], \<lambda>k. 0)"
  by (simp add: input_grad_no_shift scaling_model_def default_grad_fn_def layer_def tmap_def
      flat_def same_shape_def unit3_def float32_zero)

theorem zero_gradient_step_witness:
  "abs_mean [[[Fin 0]], [[Fin 0]], [[Fin 0]]] = Fin 0 \<and>
   dream_step False (scaling_model [1, 1, 0]) default_grad_fn (Fin (1 / 50)) (unit3, \<lambda>k. 0) =
     Inr ([[[NaN]], [[NaN]], [[NaN]]], \<lambda>k. 0) \<and>
   clamp01 (unnormalize [[[NaN]], [[NaN]], [[NaN]]]) = [[[NaN]], [[NaN]], [[NaN]]]"
  using zero_gradient_step [OF unit3_grad, of "Fin (1 / 50)"]
  by (simp add: flat_def same_shape_def unit3_def tmap_def)

subsection \<open>The range of the result\<close>

lemma tensor_fin_iff:
  "tensor_fin t \<longleftrightarrow> (\<forall>ch \<in> set t. \<forall>row \<in> set ch. \<forall>v \<in> set row. is_fin v)"
  by (simp add: tensor_fin_def list_all_iff)

lemma unit_range_iff:
  "unit_range t \<longleftrightarrow>
     (\<forall>ch \<in> set t. \<forall>row \<in> set ch. \<forall>v \<in> set row. is_fin v \<and> 0 \<le> val v \<and> val v \<le> 1)"
  by (simp add: unit_range_def list_all_iff)

lemma tensor_fin_flat: "tensor_fin t \<longleftrightarrow> list_all is_fin (flat t)"
  by (auto simp: tensor_fin_iff flat_def list_all_iff)

lemma in_map2D: "z \<in> set (map2 f xs ys) \<Longrightarrow> \<exists>x \<in> set xs. \<exists>y \<in> set ys. z = f x y"
  by (auto dest: set_zip_leftD set_zip_rightD)

lemma all_tmap2:
  assumes "\<forall>ch \<in> set a. \<forall>row \<in> set ch. \<forall>v \<in> set row. P v"
    and "\<forall>ch \<in> set b. \<forall>row \<in> set ch. \<forall>v \<in> set row. Q v"
    and "\<And>x y. P x \<Longrightarrow> Q y \<Longrightarrow> R (f x y)"
  shows "\<forall>ch \<in> set (tmap2 f a b). \<forall>row \<in> set ch. \<forall>v \<in> set row. R v"
  unfolding tmap2_def
proof (intro ballI)
  fix ch row v
  assume "ch \<in> set (map2 (map2 (map2 f)) a b)" and r: "row \<in> set ch" and v: "v \<in> set row"
  then obtain ca cb where c: "ca \<in> set a" "cb \<in> set b" "ch = map2 (map2 f) ca cb"
    by (blast dest: in_map2D)
  with r obtain ra rb where rr: "ra \<in> set ca" "rb \<in> set cb" "row = map2 f ra rb"
    by (blast dest: in_map2D)
  with v obtain x y where xy: "x \<in> set ra" "y \<in> set rb" "v = f x y"
    by (blast dest: in_map2D)
  from c rr xy assms(1,2) have "P x" "Q y" by auto
  with xy show "R v" by (simp add: assms(3))
qed

lemma all_tchan:
  assumes "\<forall>ch \<in> set t. \<forall>row \<in> set ch. \<forall>v \<in> set row. P v" and "\<forall>c \<in> set cs. Q c"
    and "\<And>x c. P x \<Longrightarrow> Q c \<Longrightarrow> R (f x c)"
  shows "\<forall>ch \<in> set (tchan f t cs). \<forall>row \<in> set ch. \<forall>v \<in> set row. R v"
  unfolding tchan_def
proof (intro ballI)
  fix ch row v
  assume "ch \<in> set (map2 (\<lambda>ch c. map (map (\<lambda>v. f v c)) ch) t cs)"
    and r: "row \<in> set ch" and v: "v \<in> set row"
  then obtain ct c where c: "ct \<in> set t" "c \<in> set cs" "ch = map (map (\<lambda>v. f v c)) ct"
    by (blast dest: in_map2D)
  with r obtain rt where rt: "rt \<in> set ct" "row = map (\<lambda>v. f v c) rt" by auto
  with v obtain x where x: "x \<in> set rt" "v = f x c" by auto
  from x(1) rt(1) c(1) assms(1) have "P x" by auto
  moreover from c(2) assms(2) have "Q c" by simp
  ultimately show "R v" using x(2) by (simp add: assms(3))
qed

lemma step_not_NaN:
  assumes "is_fin d" and "is_fin g" and "is_fin r" and "a \<noteq> 0"
  shows "fl_add d (fl_div (fl_mul g r) (Fin a)) \<noteq> NaN"
proof -
  from assms obtain x y z where e: "d = Fin x" "g = Fin y" "r = Fin z"
    unfolding is_fin_conv by blast
  have "fl_div (float32 (y * z)) (Fin a) \<noteq> NaN"
    using assms(4) by (cases "float32 (y * z)") (simp_all add: float32_not_NaN)
  then have "fl_add (Fin x) (fl_div (float32 (y * z)) (Fin a)) \<noteq> NaN"
    by (cases "fl_div (float32 (y * z)) (Fin a)") (simp_all add: float32_not_NaN)
  then show ?thesis by (simp add: e)
qed

lemma fl_max_lower: "x \<noteq> NaN \<Longrightarrow> is_fin lo \<Longrightarrow> fl_max x lo \<noteq> NaN \<and> fl_max x lo \<noteq> NInf"
  by (cases x; cases lo) (auto simp: fl_max_def)

lemma fl_min_upper: "x \<noteq> NaN \<and> x \<noteq> NInf \<Longrightarrow> is_fin hi \<Longrightarrow> is_fin (fl_min x hi)"
  by (cases x; cases hi) (auto simp: fl_min_def)

lemma fin_clamp_min: "\<forall>c \<in> set clamp_min. is_fin c"
  by (simp add: clamp_min_def mean_def std_def float32_def)

lemma fin_clamp_max: "\<forall>c \<in> set clamp_max. is_fin c"
  by (simp add: clamp_max_def mean_def std_def fl_sub_def float32_def)

lemma tensor_fin_sgd_update:
  assumes "tensor_fin data" and "abs_mean grad = Fin gm" and "gm \<noteq> 0"
    and "is_fin (to_float32 lr)"
  shows "tensor_fin (sgd_update lr data grad)"
proof -
  let ?d1 = "tmap2 (\<lambda>d g. fl_add d (fl_div (fl_mul g (to_float32 lr)) (Fin gm))) data grad"
  let ?d2 = "tchan fl_max ?d1 clamp_min"
  have g: "tensor_fin grad" using assms(2) by (simp add: tensor_fin_flat abs_mean_FinD)
  have 1: "\<forall>ch \<in> set ?d1. \<forall>row \<in> set ch. \<forall>v \<in> set row. v \<noteq> NaN"
    using assms(1) g unfolding tensor_fin_iff
    by (rule all_tmap2) (rule step_not_NaN [OF _ _ assms(4) assms(3)])
  have 2: "\<forall>ch \<in> set ?d2. \<forall>row \<in> set ch. \<forall>v \<in> set row. v \<noteq> NaN \<and> v \<noteq> NInf"
    using 1 fin_clamp_min by (rule all_tchan) (rule fl_max_lower)
  have "\<forall>ch \<in> set (tchan fl_min ?d2 clamp_max). \<forall>row \<in> set ch. \<forall>v \<in> set row. is_fin v"
    using 2 fin_clamp_max by (rule all_tchan) (rule fl_min_upper)
  then show ?thesis
    unfolding sgd_update_def Let_def assms(2) tensor_fin_iff .
qed

lemma Normalize_not_NaN:
  assumes "tensor_fin t" and "\<forall>m \<in> set ms. is_fin m" and "\<forall>s \<in> set ss. is_fin s \<and> val s \<noteq> 0"
  shows "\<forall>ch \<in> set (Normalize ms ss t). \<forall>row \<in> set ch. \<forall>v \<in> set row. v \<noteq> NaN"
  unfolding Normalize_def
proof (intro ballI)
  fix ch row v
  assume "ch \<in> set (map (\<lambda>(ch, m, s). map (map (\<lambda>v. fl_div (fl_sub v m) s)) ch) (zip t (zip ms ss)))"
    and r: "row \<in> set ch" and v: "v \<in> set row"
  then obtain ct m s where c: "(ct, m, s) \<in> set (zip t (zip ms ss))"
    "ch = map (map (\<lambda>v. fl_div (fl_sub v m) s)) ct" by auto
  from c(1) have ct: "ct \<in> set t" and "(m, s) \<in> set (zip ms ss)"
    by (auto dest: set_zip_leftD set_zip_rightD)
  then have m: "m \<in> set ms" and s: "s \<in> set ss" by (auto dest: set_zip_leftD set_zip_rightD)
  from c(2) r obtain rt where rt: "rt \<in> set ct" "row = map (\<lambda>v. fl_div (fl_sub v m) s) rt" by auto
  with v obtain x where x: "x \<in> set rt" "v = fl_div (fl_sub x m) s" by auto
  from x(1) rt(1) ct assms(1) have "is_fin x" unfolding tensor_fin_iff by blast
  then obtain a where a: "x = Fin a" by (auto simp: is_fin_conv)
  from m assms(2) obtain b where b: "m = Fin b" by (auto simp: is_fin_conv)
  from s assms(3) obtain d where d: "s = Fin d" "d \<noteq> 0" by (auto simp: is_fin_conv)
  have "fl_div (float32 (a - b)) (Fin d) \<noteq> NaN"
    using d(2) by (cases "float32 (a - b)") (simp_all add: float32_not_NaN)
  then show "v \<noteq> NaN" using x(2) a b d by (simp add: fl_sub_def)
qed

lemma unnormalize_not_NaN:
  "tensor_fin t \<Longrightarrow> \<forall>ch \<in> set (unnormalize t). \<forall>row \<in> set ch. \<forall>v \<in> set row. v \<noteq> NaN"
  unfolding unnormalize_def
  by (rule Normalize_not_NaN) (simp_all add: mean_def std_def float32_def)

lemma clamp01_elem:
  "v \<noteq> NaN \<Longrightarrow> is_fin (fl_min (fl_max v (Fin 0)) (Fin 1)) \<and>
     0 \<le> val (fl_min (fl_max v (Fin 0)) (Fin 1)) \<and> val (fl_min (fl_max v (Fin 0)) (Fin 1)) \<le> 1"
  by (cases v) (auto simp: fl_max_def fl_min_def)

lemma unit_range_clamp01:
  "\<forall>ch \<in> set t. \<forall>row \<in> set ch. \<forall>v \<in> set row. v \<noteq> NaN \<Longrightarrow> unit_range (clamp01 t)"
  unfolding unit_range_iff clamp01_def tmap_def
  using clamp01_elem by auto

lemma all_permute:
  assumes u: "\<forall>c \<in> set t. map length c = L"
    and p: "\<forall>ch \<in> set t. \<forall>row \<in> set ch. \<forall>v \<in> set row. P v"
  shows "\<forall>row \<in> set (permute t). \<forall>px \<in> set row. \<forall>v \<in> set px. P v"
proof (cases t)
  case Nil
  then show ?thesis by (simp add: permute_def)
next
  case (Cons ch rest)
  show ?thesis
  proof (intro ballI)
    fix row px v
    assume row: "row \<in> set (permute t)" and px: "px \<in> set row" and vpx: "v \<in> set px"
    from row obtain i where i: "i < length ch"
      and row': "row = map (\<lambda>j. map (\<lambda>c. c ! i ! j) t) [0..<length (ch ! i)]"
      by (auto simp: permute_def Cons)
    from px row' obtain j where j: "j < length (ch ! i)" and px': "px = map (\<lambda>c. c ! i ! j) t"
      by auto
    from vpx px' obtain c where c: "c \<in> set t" and v: "v = c ! i ! j" by auto
    have "map length c = L" "map length ch = L" using u c Cons by auto
    then have eq: "map length c = map length ch" by simp
    then have lc: "length c = length ch" by (metis length_map)
    from eq have "map length c ! i = map length ch ! i" by simp
    then have li: "length (c ! i) = length (ch ! i)" using i lc by simp
    have "c ! i \<in> set c" and "c ! i ! j \<in> set (c ! i)" using i j lc li by simp_all
    with p c v show "P v" by blast
  qed
qed

lemma unit_range_permute:
  "map (map length) t = [L, L, L] \<Longrightarrow> unit_range t \<Longrightarrow> unit_range (permute t)"
proof -
  assume sh: "map (map length) t = [L, L, L]" and ur: "unit_range t"
  have "\<forall>c \<in> set t. map length c = L"
  proof
    fix c assume "c \<in> set t"
    then have "map length c \<in> set (map (map length) t)" by simp
    with sh show "map length c = L" by simp
  qed
  with ur show ?thesis unfolding unit_range_iff by (rule all_permute [rotated])
qed

lemma unit_range_output:
  assumes "tensor_fin d" and "map (map length) d = [L, L, L]"
  shows "unit_range (permute (clamp01 (unnormalize d)))"
proof -
  have l: "length d = 3" using assms(2) by (auto dest: arg_cong [where f = length])
  then have "same_shape (clamp01 (unnormalize d)) d" by (rule same_shape_output)
  then have sh: "map (map length) (clamp01 (unnormalize d)) = [L, L, L]"
    using assms(2) by (simp add: same_shape_def)
  have "unit_range (clamp01 (unnormalize d))"
    using assms(1) by (intro unit_range_clamp01 unnormalize_not_NaN)
  with sh show ?thesis by (rule unit_range_permute)
qed

lemma tensor_fin_transformed: "tensor_fin (normalize_img (ToTensor pic))"
  by (auto simp: tensor_fin_iff transformed_explicit)

lemma flat_tmap: "flat (tmap f t) = map f (flat t)"
  by (simp add: flat_def tmap_def map_concat comp_def)

lemma fl_sum_abs_ones:
  "length xs \<le> 1000000 \<Longrightarrow> fl_sum (map fl_abs (map (\<lambda>v. Fin 1) xs)) = Fin (real (length xs))"
proof (induction xs)
  case Nil
  show ?case by (simp add: fl_sum_def)
next
  case (Cons x xs)
  then have ih: "fl_sum (map fl_abs (map (\<lambda>v. Fin 1) xs)) = Fin (real (length xs))" by simp
  have "real (Suc (length xs)) \<le> real 1000000" using Cons.prems by (simp only: of_nat_le_iff length_Cons)
  then have f: "float32 (1 + real (length xs)) = Fin (1 + real (length xs))"
    by (intro float32_mid) simp_all
  have "fl_sum (map fl_abs (map (\<lambda>v. Fin 1) (x # xs))) =
        fl_add (Fin 1) (fl_sum (map fl_abs (map (\<lambda>v. Fin 1) xs)))"
    by (simp add: fl_sum_Cons del: map_map)
  also have "\<dots> = float32 (1 + real (length xs))" by (simp only: ih fl_add.simps)
  finally show ?case by (simp add: f)
qed

lemma abs_mean_ones:
  assumes "flat data \<noteq> []" and "length (flat data) \<le> 1000000"
  shows "abs_mean (tmap (\<lambda>v. Fin 1) data) = Fin 1"
proof -
  have "fl_sum (map fl_abs (map (\<lambda>v. Fin 1) (flat data))) = Fin (real (length (flat data)))"
    using assms(2) by (rule fl_sum_abs_ones)
  then show ?thesis using assms(1) by (simp add: abs_mean_def flat_tmap)
qed

lemma scaling_sum_grad_cases:
  "input_grad False (scaling_model [1, 1, 1]) sum_grad_fn data g =
     (if flat data = [] then Inl RuntimeError else Inr (tmap (\<lambda>v. Fin 1) data, g))"
  by (simp add: scaling_sum_grad) (simp add: input_grad_no_shift scaling_model_def)

lemma tmap_cong_fin:
  "tensor_fin t \<Longrightarrow> (\<And>v. is_fin v \<Longrightarrow> f v = h v) \<Longrightarrow> tmap f t = tmap h t"
  unfolding tmap_def tensor_fin_iff by (auto intro!: map_cong)

lemma zeros_of_fin: "tensor_fin t \<Longrightarrow> tmap (fl_mul (Fin 0)) t = zeros_like t"
  unfolding zeros_like_def by (rule tmap_cong_fin) (auto simp: is_fin_conv)

lemma tensor_fin_zeros: "tensor_fin (zeros_like t)"
  by (auto simp: tensor_fin_iff zeros_like_def tmap_def)

lemma zeros_like_zeros: "zeros_like (zeros_like t) = zeros_like t"
  by (simp add: zeros_like_def tmap_def comp_def)

lemma same_shape_zeros: "same_shape (zeros_like t) t"
  unfolding zeros_like_def by (rule same_shape_tmap)

lemma zero_stage_grad:
  assumes "tensor_fin data" and "flat data \<noteq> []"
  shows "input_grad False (scaling_model [1, 1, 0]) default_grad_fn data g = Inr (zeros_like data, g)"
proof -
  have z: "tmap (fl_mul (Fin 0)) data = zeros_like data" using assms(1) by (rule zeros_of_fin)
  have zz: "tmap (fl_mul (Fin 0)) (zeros_like data) = zeros_like data"
    using zeros_of_fin [OF tensor_fin_zeros, of data] by (simp add: zeros_like_zeros)
  show ?thesis
    using assms(2) same_shape_zeros [of data]
    by (simp add: input_grad_no_shift scaling_model_def default_grad_fn_def layer_def z zz)
qed

lemma zero_stage_step:
  assumes "tensor_fin data" and "flat data \<noteq> []" and "length data = 3"
  shows "dream_step False (scaling_model [1, 1, 0]) default_grad_fn lr (data, g) =
           Inr (tmap (\<lambda>v. NaN) data, g)"
proof -
  have "flat (zeros_like data) \<noteq> []"
    using assms(2) length_flat_same_shape [OF same_shape_zeros, of data] by (metis length_0_conv)
  moreover have "\<forall>v \<in> set (flat (zeros_like data)). v = Fin 0"
    by (auto simp: zeros_like_def flat_tmap)
  ultimately have "sgd_update lr data (zeros_like data) = tmap (\<lambda>v. NaN) data"
    using same_shape_zeros assms(3) by (intro sgd_update_zero_grad)
  then show ?thesis using assms by (simp add: dream_step_def zero_stage_grad)
qed

lemma permute_const:
  assumes "map (map length) t = [replicate h w, replicate h w, replicate h w]"
  shows "permute (tmap (\<lambda>v. k) t) = replicate h (replicate w [k, k, k])"
proof -
  from assms obtain a b c where t: "t = [a, b, c]"
    and a: "map length a = replicate h w" and b: "map length b = replicate h w"
    and c: "map length c = replicate h w"
    by (auto simp: map_eq_Cons_conv)
  have la: "length a = h" and lb: "length b = h" and lc: "length c = h"
    using a b c by (metis length_map length_replicate)+
  have ra: "length (a ! i) = w" if "i < h" for i
    using that a la by (metis nth_map nth_replicate)
  have rb: "length (b ! i) = w" if "i < h" for i
    using that b lb by (metis nth_map nth_replicate)
  have rc: "length (c ! i) = w" if "i < h" for i
    using that c lc by (metis nth_map nth_replicate)
  have "permute (tmap (\<lambda>v. k) t) = map (\<lambda>i. map (\<lambda>j. [k, k, k]) [0..<w]) [0..<h]"
    unfolding permute_def tmap_def t
    by (simp add: la) (auto intro!: map_cong simp: la lb lc ra rb rc)
  then show ?thesis by (simp add: map_replicate_const)
qed

lemma dims_white: "dims white = replicate 256 256"
  by (simp add: white_def dims_def)

lemma zero_stage_dream:
  "dream False nearest (scaling_model [1, 1, 0]) g white 1 default_grad_fn lr = Inr nan_picture"
proof -
  let ?D = "normalize_img (ToTensor white)"
  have f: "tensor_fin ?D" by (rule tensor_fin_transformed)
  have l: "length ?D = 3" by (rule length_normalize_img)
  have "length (flat ?D) = 3 * sum_list (dims white)" by (rule length_flat_transformed)
  then have ne: "flat ?D \<noteq> []" by (auto simp: dims_white sum_list_replicate)
  have sh: "map (map length) ?D = [replicate 256 256, replicate 256 256, replicate 256 256]"
    by (simp add: shape_normalize_img dims_white)
  have "dream False nearest (scaling_model [1, 1, 0]) g white 1 default_grad_fn lr =
          Inr (permute (clamp01 (unnormalize (tmap (\<lambda>v. NaN) ?D))))"
    by (simp add: dream_def img_transform_white zero_stage_step [OF f ne l])
  also have "clamp01 (unnormalize (tmap (\<lambda>v. NaN) ?D)) = tmap (\<lambda>v. NaN) ?D"
    using l by (rule output_NaN)
  also have "permute (tmap (\<lambda>v. NaN) ?D) = nan_picture"
    unfolding nan_picture_def using sh by (rule permute_const)
  finally show ?thesis .
qed

lemma not_unit_range_nan: "\<not> unit_range nan_picture"
  by (simp add: unit_range_def nan_picture_def list_all_iff)

text \<open>
  The claim as stated fails for an objective whose gradient is zero: with a network whose
  stage 2 is zero everywhere, one iteration from a white picture returns not-a-number at
  every element.
\<close>

theorem zero_gradient_leaves_unit_range:
  "dream False nearest (scaling_model [1, 1, 0]) (\<lambda>k. 0) white 1 default_grad_fn (Fin (1 / 50)) =
     Inr nan_picture \<and> \<not> unit_range nan_picture"
  by (simp add: zero_stage_dream not_unit_range_nan)

lemma not_fin_nan_tensor: "flat t \<noteq> [] \<Longrightarrow> \<not> tensor_fin (tmap (\<lambda>v. NaN) t)"
  by (cases "flat t") (auto simp: tensor_fin_flat flat_tmap)

lemma flat_white_transformed: "flat (normalize_img (ToTensor white)) \<noteq> []"
proof -
  have "length (flat (normalize_img (ToTensor white))) = 3 * sum_list (dims white)"
    by (rule length_flat_transformed)
  then show ?thesis by (auto simp: dims_white sum_list_replicate)
qed

text \<open>
  The claim as stated fails: with a network whose stage 2 is zero everywhere the first
  step from the white picture raises nothing and leaves an image state that is
  not-a-number everywhere, which is not the state before the step.
\<close>

theorem zero_gradient_step_is_no_noop:
  "dream_step False (scaling_model [1, 1, 0]) default_grad_fn (Fin (1 / 50))
     (normalize_img (ToTensor white), \<lambda>k. 0) =
     Inr (tmap (\<lambda>v. NaN) (normalize_img (ToTensor white)), \<lambda>k. 0) \<and>
   tmap (\<lambda>v. NaN) (normalize_img (ToTensor white)) \<noteq> normalize_img (ToTensor white)"
proof -
  have "tmap (\<lambda>v. NaN) (normalize_img (ToTensor white)) \<noteq> normalize_img (ToTensor white)"
    using not_fin_nan_tensor [OF flat_white_transformed] tensor_fin_transformed [of white]
    by auto
  then show ?thesis
    by (simp add: zero_stage_step [OF tensor_fin_transformed flat_white_transformed
          length_normalize_img])
qed

subsection \<open>Runs without a degenerate iteration\<close>

lemma abs_mean_case:
  "(case abs_mean grad of Fin a \<Rightarrow> a \<noteq> 0 | PInf \<Rightarrow> False | NInf \<Rightarrow> False | NaN \<Rightarrow> False) \<Longrightarrow>
   \<exists>a. abs_mean grad = Fin a \<and> a \<noteq> 0"
  by (cases "abs_mean grad") simp_all

lemma nondegenerate_loop:
  assumes "autograd_ok m" and "is_fin (to_float32 lr)"
  shows "nondegenerate n shifts m gf lr (data, g) \<Longrightarrow> tensor_fin data \<Longrightarrow> length data = 3 \<Longrightarrow>
         dream_loop n shifts m gf lr (data, g) = Inr (data', g') \<Longrightarrow>
         tensor_fin data' \<and> same_shape data' data"
proof (induction n arbitrary: data g)
  case 0
  then show ?case by (simp add: same_shape_refl)
next
  case (Suc n)
  from Suc.prems(4) obtain d1 g1 where
    st: "dream_step shifts m gf lr (data, g) = Inr (d1, g1)" and
    lp: "dream_loop n shifts m gf lr (d1, g1) = Inr (data', g')"
    by (auto split: sum.splits)
  from st obtain grad where ig: "input_grad shifts m gf data g = Inr (grad, g1)"
    and d1: "d1 = sgd_update lr data grad"
    by (auto simp: dream_step_def split: sum.splits prod.splits)
  from Suc.prems(1) ig d1 obtain a where a: "abs_mean grad = Fin a" "a \<noteq> 0"
    and nd: "nondegenerate n shifts m gf lr (d1, g1)"
    by (auto dest: abs_mean_case)
  have sh: "same_shape grad data" using assms(1) ig by (rule input_grad_shape)
  have f1: "tensor_fin d1" unfolding d1 using Suc.prems(2) a assms(2) by (rule tensor_fin_sgd_update)
  have s1: "same_shape d1 data" unfolding d1 using sh Suc.prems(3) by (rule same_shape_sgd_update)
  have l1: "length d1 = 3" using s1 Suc.prems(3) by (simp add: same_shape_length)
  from Suc.IH [OF nd f1 l1 lp] have "tensor_fin data'" and "same_shape data' d1" by simp_all
  with s1 show ?case by (blast intro: same_shape_trans)
qed

text \<open>
  Claim C2, as the code has it. For every picture, objective and iteration count, and
  every learning rate that is a number of the range of \<open>float32\<close>: when in every
  iteration of the run the mean absolute gradient is a number other than zero, every
  element of the picture that \<open>dream\<close> returns is a number in \<open>[0, 1]\<close>. (The network
  is any collaborator whose gradients have the shape of their variable.)
\<close>

theorem dream_unit_range:
  assumes "autograd_ok m" and "nondegenerate_run shifts rs m g img n_iter gf lr"
    and "is_fin (to_float32 lr)"
    and "dream shifts rs m g img n_iter gf lr = Inr r"
  shows "unit_range r"
proof -
  from assms(4) obtain data data' g' where
    tr: "img_transform rs img = Inr data" and
    lp: "dream_loop (nat n_iter) shifts m gf lr (data, g) = Inr (data', g')" and
    r: "r = permute (clamp01 (unnormalize data'))"
    by (auto simp: dream_def split: sum.splits prod.splits)
  from tr obtain pic where pic: "data = normalize_img (ToTensor pic)"
    by (auto dest: img_transform_Inr)
  have nd: "nondegenerate (nat n_iter) shifts m gf lr (data, g)"
    using assms(2) tr by (simp add: nondegenerate_run_def)
  have f: "tensor_fin data" unfolding pic by (rule tensor_fin_transformed)
  have l: "length data = 3" using pic by (simp add: length_normalize_img)
  from nondegenerate_loop [OF assms(1) assms(3) nd f l lp]
  have f': "tensor_fin data'" and s: "same_shape data' data" by simp_all
  from s have "map (map length) data' = [dims pic, dims pic, dims pic]"
    using pic by (simp add: same_shape_def shape_normalize_img)
  with f' show ?thesis unfolding r by (rule unit_range_output)
qed

lemma flat_one_pixel_transformed: "flat (normalize_img (ToTensor (nearest 256 256 one_pixel))) \<noteq> []"
proof -
  have "length (flat (normalize_img (ToTensor (nearest 256 256 one_pixel)))) =
        3 * sum_list (dims (nearest 256 256 one_pixel))"
    by (rule length_flat_transformed)
  then show ?thesis by (auto simp: dims_nearest sum_list_replicate)
qed

lemma length_one_pixel_transformed:
  "length (flat (normalize_img (ToTensor (nearest 256 256 one_pixel)))) \<le> 1000000"
  by (simp add: length_flat_transformed dims_nearest sum_list_replicate)

lemma one_pixel_run_nondegenerate:
  "nondegenerate_run False nearest (scaling_model [1, 1, 1]) g one_pixel 1 sum_grad_fn lr"
  by (simp add: nondegenerate_run_def img_transform_def Resize_one_pixel
      scaling_sum_grad [OF flat_one_pixel_transformed]
      abs_mean_ones [OF flat_one_pixel_transformed length_one_pixel_transformed])

theorem dream_unit_range_witness:
  "unit_range (permute (clamp01 (unnormalize
      (sgd_update (Fin (1 / 50)) (normalize_img (ToTensor (nearest 256 256 one_pixel)))
         (tmap (\<lambda>v. Fin 1) (normalize_img (ToTensor (nearest 256 256 one_pixel)))))))) \<and>
   nondegenerate_run False nearest (scaling_model [1, 1, 1]) (\<lambda>k. 0) one_pixel 1 sum_grad_fn (Fin (1 / 50)) \<and>
   dream False nearest (scaling_model [1, 1, 1]) (\<lambda>k. 0) one_pixel 1 sum_grad_fn (Fin (1 / 50)) =
     Inr (permute (clamp01 (unnormalize
      (sgd_update (Fin (1 / 50)) (normalize_img (ToTensor (nearest 256 256 one_pixel)))
         (tmap (\<lambda>v. Fin 1) (normalize_img (ToTensor (nearest 256 256 one_pixel))))))))"
proof -
  have run: "dream False nearest (scaling_model [1, 1, 1]) (\<lambda>k. 0) one_pixel 1 sum_grad_fn (Fin (1 / 50)) =
     Inr (permute (clamp01 (unnormalize
      (sgd_update (Fin (1 / 50)) (normalize_img (ToTensor (nearest 256 256 one_pixel)))
         (tmap (\<lambda>v. Fin 1) (normalize_img (ToTensor (nearest 256 256 one_pixel))))))))"
    by (rule dream_sum_one_step [OF Resize_one_pixel]) (simp add: dims_nearest sum_list_replicate)
  have lr: "is_fin (to_float32 (Fin (1 / 50)))" by (simp add: to_float32_def float32_def)
  from dream_unit_range [OF scaling_model_autograd one_pixel_run_nondegenerate lr run]
    one_pixel_run_nondegenerate run
  show ?thesis by simp
qed

text \<open>
  The condition on the learning rate is needed. The run of one iteration on the white
  picture with the rate \<open>10^39\<close> has a mean absolute gradient of 1/3, a number other than
  zero, and returns a picture whose second and third channel are not-a-number.
\<close>

lemma permute_channels:
  "permute [replicate h (replicate w a), replicate h (replicate w b), replicate h (replicate w c)] =
     replicate h (replicate w [a, b, c])"
proof -
  have "permute [replicate h (replicate w a), replicate h (replicate w b), replicate h (replicate w c)] =
        map (\<lambda>i. map (\<lambda>j. [a, b, c]) [0..<w]) [0..<h]"
    unfolding permute_def by (auto intro!: map_cong)
  then show ?thesis by (simp add: map_replicate_const)
qed

lemma white_huge_output:
  "permute (clamp01 (unnormalize
     [replicate 256 (replicate 256 (Fin (515 / 229))),
      replicate 256 (replicate 256 NaN),
      replicate 256 (replicate 256 NaN)])) =
   replicate 256 (replicate 256 [Fin 1, NaN, NaN])"
proof -
  have "clamp01 (unnormalize
     [replicate 256 (replicate 256 (Fin (515 / 229))),
      replicate 256 (replicate 256 NaN),
      replicate 256 (replicate 256 NaN)]) =
     [replicate 256 (replicate 256 (Fin 1)),
      replicate 256 (replicate 256 NaN),
      replicate 256 (replicate 256 NaN)]"
    unfolding unnormalize_consts Normalize_3
    by (simp add: clamp01_def tmap_def fl_sub_def fl_max_def fl_min_def float32_def)
  then show ?thesis by (simp only: permute_channels)
qed

lemma white_huge_run:
  "dream False nearest (scaling_model [1, 1, 1]) g white 1 first_channel_grad_fn (Fin (10 ^ 39)) =
     Inr (replicate 256 (replicate 256 [Fin 1, NaN, NaN])) \<and>
   nondegenerate_run False nearest (scaling_model [1, 1, 1]) g white 1 first_channel_grad_fn
     (Fin (10 ^ 39)) \<and>
   \<not> unit_range (replicate 256 (replicate 256 [Fin 1, NaN, NaN]))"
proof -
  define lr where "lr = Fin (10 ^ 39)"
  have st: "dream_step False (scaling_model [1, 1, 1]) first_channel_grad_fn lr
              (normalize_img (ToTensor white), g) =
            Inr ([replicate 256 (replicate 256 (Fin (515 / 229))),
                  replicate 256 (replicate 256 NaN),
                  replicate 256 (replicate 256 NaN)], g)"
    unfolding lr_def
    by (simp only: dream_step_def prod.case white_grad [unfolded white_transformed] sum.case
        white_transformed white_huge_step)
  have "dream False nearest (scaling_model [1, 1, 1]) g white 1 first_channel_grad_fn lr =
     Inr (replicate 256 (replicate 256 [Fin 1, NaN, NaN]))"
    by (simp add: dream_def img_transform_white st white_huge_output)
  moreover have "nondegenerate_run False nearest (scaling_model [1, 1, 1]) g white 1
      first_channel_grad_fn lr"
    by (simp add: nondegenerate_run_def img_transform_white white_grad white_grad_mean)
  moreover have "\<not> unit_range (replicate 256 (replicate 256 [Fin 1, NaN, NaN]))"
    by (simp add: unit_range_def list_all_iff)
  ultimately show ?thesis unfolding lr_def by (intro conjI)
qed

subsection \<open>Learning rate 0\<close>

lemma is_f32_special: "is_f32 PInf" "is_f32 NInf" "is_f32 NaN" "is_f32 (Fin 0)"
  by (simp_all add: is_f32_def)

lemma is_f32_fl_div: "is_f32 (fl_div x y)"
  by (cases x; cases y) (simp_all add: is_f32_float32 is_f32_special)

lemma is_f32_Normalize: "\<forall>v \<in> set (flat (Normalize ms ss t)). is_f32 v"
  by (auto simp: flat_def Normalize_def is_f32_fl_div)

lemma is_f32_transformed: "\<forall>v \<in> set (flat (normalize_img (ToTensor pic))). is_f32 v"
  unfolding normalize_img_def by (rule is_f32_Normalize)

lemma sgd_update_zero_rate:
  assumes sh: "same_shape grad data" and f32: "\<forall>v \<in> set (flat data). is_f32 v"
    and gm: "abs_mean grad = Fin a" and nz: "a \<noteq> 0"
    and lo: "tchan fl_max data clamp_min = data" and hi: "tchan fl_min data clamp_max = data"
  shows "sgd_update (Fin 0) data grad = data"
proof -
  have fin: "list_all is_fin (flat grad)" using gm by (rule abs_mean_FinD)
  have "tmap2 (\<lambda>d g. fl_add d (fl_div (fl_mul g (to_float32 (Fin 0))) (Fin a))) data grad =
        tmap (\<lambda>d. d) data"
  proof (rule tmap2_left [OF sh])
    fix d v assume d: "d \<in> set (flat data)" and "v \<in> set (flat grad)"
    with fin obtain x where "v = Fin x" by (auto simp: list_all_iff is_fin_conv)
    then have "fl_div (fl_mul v (to_float32 (Fin 0))) (Fin a) = Fin 0"
      using nz by (simp add: to_float32_def)
    moreover from d f32 have "is_f32 d" by simp
    ultimately show "fl_add d (fl_div (fl_mul v (to_float32 (Fin 0))) (Fin a)) = d"
      by (simp add: fl_add_zero)
  qed
  then have "tmap2 (\<lambda>d g. fl_add d (fl_div (fl_mul g (to_float32 (Fin 0))) (Fin a))) data grad = data"
    by (simp add: tmap_def)
  then show ?thesis by (simp add: sgd_update_def gm lo hi)
qed

text \<open>
  The claim as stated fails for an objective whose gradient is zero: with learning rate 0
  the step is \<open>0 * 0 / 0\<close>, and one iteration returns not-a-number everywhere instead of
  the picture.
\<close>

theorem zero_rate_zero_gradient_changes_image:
  "dream False nearest (scaling_model [1, 1, 0]) (\<lambda>k. 0) white 1 default_grad_fn (Fin 0) = Inr nan_picture \<and>
   dream False nearest (scaling_model [1, 1, 0]) (\<lambda>k. 0) white 0 default_grad_fn (Fin 0) \<noteq> Inr nan_picture"
proof -
  have "unit_range (permute (clamp01 (unnormalize (normalize_img (ToTensor white)))))"
    by (rule unit_range_output [OF tensor_fin_transformed shape_normalize_img])
  then have "permute (clamp01 (unnormalize (normalize_img (ToTensor white)))) \<noteq> nan_picture"
    using not_unit_range_nan by auto
  then have "dream False nearest (scaling_model [1, 1, 0]) (\<lambda>k. 0) white 0 default_grad_fn (Fin 0) \<noteq>
      Inr nan_picture"
    by (simp add: dream_def img_transform_white)
  with zero_stage_dream [of "\<lambda>k. 0" "Fin 0"] show ?thesis by (rule conjI)
qed

lemma zero_rate_loop:
  assumes ag: "autograd_ok m" and f32: "\<forall>v \<in> set (flat data). is_f32 v"
    and lo: "tchan fl_max data clamp_min = data" and hi: "tchan fl_min data clamp_max = data"
  shows "nondegenerate n shifts m gf (Fin 0) (data, g) \<Longrightarrow>
         dream_loop n shifts m gf (Fin 0) (data, g) = Inr (data', g') \<Longrightarrow> data' = data"
proof (induction n arbitrary: g)
  case 0
  then show ?case by simp
next
  case (Suc n)
  from Suc.prems(2) obtain d1 g1 where
    st: "dream_step shifts m gf (Fin 0) (data, g) = Inr (d1, g1)" and
    lp: "dream_loop n shifts m gf (Fin 0) (d1, g1) = Inr (data', g')"
    by (auto split: sum.splits)
  from st obtain grad where ig: "input_grad shifts m gf data g = Inr (grad, g1)"
    and d1: "d1 = sgd_update (Fin 0) data grad"
    by (auto simp: dream_step_def split: sum.splits prod.splits)
  from Suc.prems(1) ig d1 obtain a where a: "abs_mean grad = Fin a" "a \<noteq> 0"
    and nd: "nondegenerate n shifts m gf (Fin 0) (d1, g1)"
    by (auto dest: abs_mean_case)
  have sh: "same_shape grad data" using ag ig by (rule input_grad_shape)
  have e: "d1 = data" unfolding d1 using sh f32 a lo hi by (rule sgd_update_zero_rate)
  from nd lp have "nondegenerate n shifts m gf (Fin 0) (data, g1)"
    and "dream_loop n shifts m gf (Fin 0) (data, g1) = Inr (data', g')"
    unfolding e by simp_all
  then show ?case by (rule Suc.IH)
qed

text \<open>
  Claim C8, as the code has it. With learning rate 0, for every iteration count: when in
  every iteration of the run the mean absolute gradient is a number other than zero, a
  successful run returns what a run of no iteration returns, the pre-processed picture
  unnormalised and clamped, which in exact arithmetic is the resized picture itself,
  scaled to \<open>[0, 1]\<close>.
\<close>

theorem zero_learning_rate:
  assumes "autograd_ok m" and "nondegenerate_run shifts rs m g img n_iter gf (Fin 0)"
    and "dream shifts rs m g img n_iter gf (Fin 0) = Inr r"
  shows "dream shifts rs m g img 0 gf (Fin 0) = Inr r \<and>
         (\<exists>pic. Resize rs 256 img = Inr pic \<and>
            r = permute (clamp01 (unnormalize (normalize_img (ToTensor pic)))) \<and>
            r = permute (ToTensor pic))"
proof -
  from assms(3) obtain data data' g' where
    tr: "img_transform rs img = Inr data" and
    lp: "dream_loop (nat n_iter) shifts m gf (Fin 0) (data, g) = Inr (data', g')" and
    r: "r = permute (clamp01 (unnormalize data'))"
    by (auto simp: dream_def split: sum.splits prod.splits)
  from tr obtain pic where pic: "Resize rs 256 img = Inr pic" "data = normalize_img (ToTensor pic)"
    by (auto dest: img_transform_Inr)
  have nd: "nondegenerate (nat n_iter) shifts m gf (Fin 0) (data, g)"
    using assms(2) tr by (simp add: nondegenerate_run_def)
  have lo: "tchan fl_max data clamp_min = data" and hi: "tchan fl_min data clamp_max = data"
    unfolding pic(2) by (rule transformed_above, rule transformed_below)
  have f32: "\<forall>v \<in> set (flat data). is_f32 v" unfolding pic(2) by (rule is_f32_transformed)
  have "data' = data" using assms(1) f32 lo hi nd lp by (rule zero_rate_loop)
  with r pic have r': "r = permute (clamp01 (unnormalize (normalize_img (ToTensor pic))))" by simp
  then have "r = permute (ToTensor pic)"
    by (simp add: unnormalize_transformed clamp01_ToTensor)
  moreover have "dream shifts rs m g img 0 gf (Fin 0) = Inr r"
    using tr pic(2) r' by (simp add: dream_def)
  ultimately show ?thesis using pic(1) r' by blast
qed

theorem zero_learning_rate_witness:
  "nondegenerate_run False nearest (scaling_model [1, 1, 1]) (\<lambda>k. 0) one_pixel 1 sum_grad_fn (Fin 0) \<and>
   dream False nearest (scaling_model [1, 1, 1]) (\<lambda>k. 0) one_pixel 1 sum_grad_fn (Fin 0) =
     Inr (permute (ToTensor (nearest 256 256 one_pixel))) \<and>
   dream False nearest (scaling_model [1, 1, 1]) (\<lambda>k. 0) one_pixel 0 sum_grad_fn (Fin 0) =
     Inr (permute (ToTensor (nearest 256 256 one_pixel)))"
proof -
  let ?R = "permute (clamp01 (unnormalize
      (sgd_update (Fin 0) (normalize_img (ToTensor (nearest 256 256 one_pixel)))
         (tmap (\<lambda>v. Fin 1) (normalize_img (ToTensor (nearest 256 256 one_pixel)))))))"
  have run: "dream False nearest (scaling_model [1, 1, 1]) (\<lambda>k. 0) one_pixel 1 sum_grad_fn (Fin 0) = Inr ?R"
    by (rule dream_sum_one_step [OF Resize_one_pixel]) (simp add: dims_nearest sum_list_replicate)
  from zero_learning_rate [OF scaling_model_autograd one_pixel_run_nondegenerate run] obtain pic where
    z: "dream False nearest (scaling_model [1, 1, 1]) (\<lambda>k. 0) one_pixel 0 sum_grad_fn (Fin 0) = Inr ?R"
    and p: "Resize nearest 256 one_pixel = Inr pic" and e: "?R = permute (ToTensor pic)"
    by blast
  from p have "pic = nearest 256 256 one_pixel" by (simp add: Resize_one_pixel)
  with e have "?R = permute (ToTensor (nearest 256 256 one_pixel))" by simp
  with run z one_pixel_run_nondegenerate show ?thesis by simp
qed

end
